theory Spec2Isabelle
  imports Complex_Main "HOL-Library.AList" "HOL-Library.Word"
begin

section \<open>The Gate.io WebSocket client as an event-driven state machine\<close>

text \<open>
  The development embeds class \<open>GateIoWebSocketClient\<close> of the balance-aware client
  (the variant with authentication and auto-reconnect) and, for the message handler, the
  one of the plain ping-pong client. Every method is a function from the fields of the
  object to the fields after the call. What the JavaScript run time contributes is part
  of the state as well: the armed timers, the sockets created so far with their
  \<open>readyState\<close>, the frames handed to \<open>ws.send\<close>, and the calls of the \<open>resolve\<close> and
  \<open>reject\<close> callbacks of the promises returned by \<open>sendPing\<close>. The handlers run one at
  a time (the event loop), so a run of the client is a list of events. The callers of
  the class (\<open>TradingBot\<close>, \<open>Application\<close>, the signal handlers) are not part of the
  development; what they do to the client is the event \<open>CallClose\<close>.

  Clock readings (\<open>Date.now()\<close>) are arguments of the handlers. The numbers of
  \<open>parseFloat\<close>, their printing by \<open>toFixed\<close> and the digest of \<open>crypto.createHmac\<close>
  belong to the platform and are parameters.
\<close>

subsection \<open>Data\<close>

text \<open>The \<open>readyState\<close> of a socket of the \<open>ws\<close> library.\<close>

datatype readyState = CONNECTING | OPEN | CLOSING | CLOSED

text \<open>
  One call of \<open>connect()\<close>: its socket, the handle of its \<open>connectionTimeout\<close>, whether
  the call is the one awaited inside the reconnect timer (whose \<open>catch\<close> calls
  \<open>scheduleReconnect\<close>), and whether its promise is settled already.
\<close>

record connection =
  readyState :: readyState
  connectionTimeout :: nat
  awaited :: bool
  settled :: bool

text \<open>
  A member of an element of a balance update, as the handler uses it: absent or \<open>null\<close>;
  a string; or another value, given by its truthiness and the text \<open>String()\<close> makes of it.
\<close>

datatype field = Missing | Text string | Other bool string

text \<open>The four members the handler reads.\<close>

record balance =
  currency :: field
  available :: field
  locked :: field
  change_type :: field

text \<open>
  The \<open>result\<close> member of an inbound frame. An element of an array is \<open>null\<close> (\<open>None\<close>), on
  which reading a member throws, or any other value.
\<close>

datatype payload = Absent | Str string | Balances "balance option list" | Opaque string

text \<open>The exception a handler can run into.\<close>

datatype error = TypeError

record api_error =
  err_code :: "int option"
  err_message :: "string option"

text \<open>
  A parsed inbound frame. \<open>f_id\<close> is the numeric \<open>id\<close> (\<open>None\<close> when the frame has none);
  \<open>f_error\<close> is the \<open>error\<close> object.
\<close>

record frame =
  f_id :: "nat option"
  f_method :: "string option"
  f_result :: payload
  f_error :: "api_error option"
  f_channel :: "string option"
  f_event :: "string option"

text \<open>The three frames the client sends.\<close>

record subscribe_frame =
  sub_time :: int
  sub_channel :: string
  sub_event :: string
  auth_method :: string
  auth_KEY :: string
  auth_SIGN :: string

datatype outframe = PingFrame nat | PongFrame nat | SubscribeFrame subscribe_frame

text \<open>
  What a promise of \<open>sendPing\<close> is completed with: \<open>{latency, timestamp}\<close> or
  \<open>message.result\<close> on \<open>resolve\<close>, the message of the \<open>Error\<close> on \<open>reject\<close>.
\<close>

datatype resolution = Latency int int | Result payload

datatype outcome = Resolved resolution | Rejected string

text \<open>A value of the map \<open>pendingRequests\<close>; \<open>waiter\<close> names the promise whose callbacks it holds.\<close>

record pending =
  waiter :: nat
  timestamp :: int

text \<open>The callbacks handed to \<open>setTimeout\<close> and \<open>setInterval\<close>.\<close>

datatype timer =
    ConnectionTimeout nat
  | SettleDelay nat
  | ReconnectTimer real
  | PingInterval
  | InitialBalance
  | BalanceInterval
  | PongTimeout nat

fun duration :: "timer \<Rightarrow> real" where
  "duration (ConnectionTimeout k) = 10000"
| "duration (SettleDelay k) = 3000"
| "duration (ReconnectTimer d) = d"
| "duration PingInterval = 30000"
| "duration InitialBalance = 5000"
| "duration BalanceInterval = 30000"
| "duration (PongTimeout w) = 10000"

fun repeats :: "timer \<Rightarrow> bool" where
  "repeats PingInterval = True"
| "repeats BalanceInterval = True"
| "repeats t = False"

text \<open>
  What \<open>handleBalanceUpdate\<close> writes to the console: the three amounts as \<open>toFixed(6)\<close>
  prints them and the change type if there is one; the currencies present when there is
  no USDT entry; that the data is no array; or, from its \<open>catch\<close>, that processing failed
  (\<open>console.error\<close>).
\<close>

datatype 'n observation =
    UsdtBalance string string string "string option"
  | UsdtNotFound string
  | UnexpectedFormat
  | ProcessingError

text \<open>
  The platform: \<open>parseFloat\<close>, the addition of its numbers, \<open>Number.prototype.toFixed\<close>
  (number, digits), and HMAC-SHA512 (key, message).
\<close>

record 'n platform =
  parseFloat :: "string \<Rightarrow> 'n"
  float_add :: "'n \<Rightarrow> 'n \<Rightarrow> 'n"
  toFixed :: "'n \<Rightarrow> nat \<Rightarrow> string"
  hmac_sha512 :: "string \<Rightarrow> string \<Rightarrow> 8 word list"

text \<open>
  The fields of the client, followed by the run time's part: the armed timers with their
  handles, the promises created, the calls of their callbacks in order, the frames
  transmitted (with the socket), and the balance lines of the console.
\<close>

record 'n client =
  apiKey :: string
  apiSecret :: string
  sockets :: "connection list"
  ws :: "nat option"
  isConnected :: bool
  isAuthenticated :: bool
  pingInterval :: "nat option"
  balanceInterval :: "nat option"
  reconnectInterval :: "nat option"
  requestId :: nat
  pendingRequests :: "(nat \<times> pending) list"
  reconnectAttempts :: nat
  isReconnecting :: bool
  lastConnectionTime :: int
  timers :: "(nat \<times> timer) list"
  nextTimer :: nat
  nextWaiter :: nat
  completions :: "(nat \<times> outcome) list"
  outbox :: "(nat \<times> outframe) list"
  console :: "'n observation list"

definition maxReconnectAttempts :: nat where
  "maxReconnectAttempts = 10"

definition reconnectDelay :: real where
  "reconnectDelay = 1000"

definition maxReconnectDelay :: real where
  "maxReconnectDelay = 30000"

subsection \<open>Timers and sockets\<close>

text \<open>\<open>setTimeout\<close> and \<open>setInterval\<close> return the handle \<open>nextTimer\<close>; \<open>clearTimeout\<close> disarms.\<close>

definition setTimer :: "timer \<Rightarrow> 'n client \<Rightarrow> 'n client" where
  "setTimer t s = s\<lparr>timers := timers s @ [(nextTimer s, t)], nextTimer := Suc (nextTimer s)\<rparr>"

definition clearTimer :: "nat \<Rightarrow> 'n client \<Rightarrow> 'n client" where
  "clearTimer h s = s\<lparr>timers := filter (\<lambda>p. fst p \<noteq> h) (timers s)\<rparr>"

definition sock :: "'n client \<Rightarrow> nat \<Rightarrow> connection option" where
  "sock s k = (if k < length (sockets s) then Some (sockets s ! k) else None)"

definition setReadyState :: "nat \<Rightarrow> readyState \<Rightarrow> 'n client \<Rightarrow> 'n client" where
  "setReadyState k r s =
     (if k < length (sockets s)
      then s\<lparr>sockets := (sockets s)[k := (sockets s ! k)\<lparr>readyState := r\<rparr>]\<rparr>
      else s)"

text \<open>
  \<open>ws.send\<close> of the \<open>ws\<close> library: it throws while the socket is connecting, transmits
  when it is open, and otherwise drops the data (no callback is given here).
\<close>

datatype sent = Thrown | Transmitted | Dropped

definition ws_send :: "'n client \<Rightarrow> nat \<Rightarrow> sent" where
  "ws_send s k =
     (case sock s k of
        None \<Rightarrow> Dropped
      | Some c \<Rightarrow>
          (case readyState c of
             CONNECTING \<Rightarrow> Thrown
           | OPEN \<Rightarrow> Transmitted
           | CLOSING \<Rightarrow> Dropped
           | CLOSED \<Rightarrow> Dropped))"

definition ws_not_open :: string where
  "ws_not_open = ''WebSocket is not open: readyState 0 (CONNECTING)''"

text \<open>A number in a template literal: its decimal digits.\<close>

fun dec :: "nat \<Rightarrow> string" where
  "dec n = (if n < 10 then [''0123456789'' ! n] else dec (n div 10) @ [''0123456789'' ! (n mod 10)])"

declare dec.simps [simp del]

definition show_int :: "int \<Rightarrow> string" where
  "show_int i = (if i < 0 then CHR ''-'' # dec (nat (- i)) else dec (nat i))"

subsection \<open>The methods of the client\<close>

text \<open>
  \<open>connect()\<close>: a new socket, which becomes \<open>this.ws\<close>, and the 10 s connection timeout.
  The handlers it registers are the events below.
\<close>

definition connect :: "bool \<Rightarrow> 'n client \<Rightarrow> 'n client" where
  "connect aw s =
     (let k = length (sockets s); h = nextTimer s
      in (setTimer (ConnectionTimeout k) s)
           \<lparr>sockets := sockets s @
              [\<lparr>readyState = CONNECTING, connectionTimeout = h, awaited = aw, settled = False\<rparr>],
            ws := Some k\<rparr>)"

text \<open>The constructor: the initial field values, then \<open>this.connectionPromise = this.connect()\<close>.\<close>

definition blank :: "string \<Rightarrow> string \<Rightarrow> 'n client" where
  "blank key secret =
     \<lparr>apiKey = key, apiSecret = secret, sockets = [], ws = None,
      isConnected = False, isAuthenticated = False,
      pingInterval = None, balanceInterval = None, reconnectInterval = None,
      requestId = 1, pendingRequests = [],
      reconnectAttempts = 0, isReconnecting = False, lastConnectionTime = 0,
      timers = [], nextTimer = 0, nextWaiter = 0,
      completions = [], outbox = [], console = []\<rparr>"

definition init :: "string \<Rightarrow> string \<Rightarrow> 'n client" where
  "init key secret = connect False (blank key secret)"

text \<open>\<open>rejectAllPendingRequests\<close>: the map is walked in insertion order; every entry is rejected and deleted.\<close>

definition rejectAllPendingRequests :: "string \<Rightarrow> 'n client \<Rightarrow> 'n client" where
  "rejectAllPendingRequests err s =
     s\<lparr>completions := completions s @ map (\<lambda>(i, p). (waiter p, Rejected err)) (pendingRequests s),
       pendingRequests := []\<rparr>"

definition stopIntervals :: "'n client \<Rightarrow> 'n client" where
  "stopIntervals s =
     (let s1 = (case pingInterval s of
                  None \<Rightarrow> s
                | Some h \<Rightarrow> (clearTimer h s)\<lparr>pingInterval := None\<rparr>)
      in (case balanceInterval s1 of
            None \<Rightarrow> s1
          | Some h \<Rightarrow> (clearTimer h s1)\<lparr>balanceInterval := None\<rparr>))"

definition stopReconnection :: "'n client \<Rightarrow> 'n client" where
  "stopReconnection s =
     (let s1 = (case reconnectInterval s of
                  None \<Rightarrow> s
                | Some h \<Rightarrow> (clearTimer h s)\<lparr>reconnectInterval := None\<rparr>)
      in s1\<lparr>isReconnecting := False, reconnectAttempts := maxReconnectAttempts\<rparr>)"

text \<open>
  \<open>scheduleReconnect\<close>: the counter is incremented before the delay
  \<open>Math.min(reconnectDelay * Math.pow(1.5, reconnectAttempts - 1), maxReconnectDelay)\<close> is
  computed. The numbers involved are dyadic rationals with short mantissas, which the
  doubles of the source represent exactly.
\<close>

definition scheduleReconnect :: "'n client \<Rightarrow> 'n client" where
  "scheduleReconnect s =
     (if isReconnecting s \<or> reconnectAttempts s \<ge> maxReconnectAttempts then s
      else
        (let n = reconnectAttempts s + 1;
             delay = min (reconnectDelay * 1.5 ^ (n - 1)) maxReconnectDelay;
             h = nextTimer s
         in (setTimer (ReconnectTimer delay) (s\<lparr>isReconnecting := True, reconnectAttempts := n\<rparr>))
              \<lparr>reconnectInterval := Some h\<rparr>))"

definition handleDisconnection :: "'n client \<Rightarrow> 'n client" where
  "handleDisconnection s =
     (let s1 = rejectAllPendingRequests ''Connection lost''
                 (stopIntervals (s\<lparr>isConnected := False, isAuthenticated := False\<rparr>))
      in if \<not> isReconnecting s1 then scheduleReconnect s1 else s1)"

text \<open>
  \<open>sendPing\<close>. The promise it returns is the waiter \<open>nextWaiter\<close>. The callback of the
  10 s timeout is the timer \<open>PongTimeout\<close> of that waiter; it is armed before
  \<open>this.requestId++\<close> and reads \<open>this.requestId\<close> when it runs (\<open>pongTimeout\<close> below).
\<close>

definition sendPing :: "int \<Rightarrow> 'n client \<Rightarrow> 'n client" where
  "sendPing now s =
     (let w = nextWaiter s; s0 = s\<lparr>nextWaiter := Suc w\<rparr>
      in case ws s of
           None \<Rightarrow> s0\<lparr>completions := completions s0 @ [(w, Rejected ''WebSocket not connected'')]\<rparr>
         | Some k \<Rightarrow>
             if \<not> isConnected s
             then s0\<lparr>completions := completions s0 @ [(w, Rejected ''WebSocket not connected'')]\<rparr>
             else
               (let i = requestId s;
                    s1 = s0\<lparr>pendingRequests :=
                              AList.update i \<lparr>waiter = w, timestamp = now\<rparr> (pendingRequests s0)\<rparr>
                in case ws_send s k of
                     Thrown \<Rightarrow>
                       s1\<lparr>pendingRequests := AList.delete (requestId s1) (pendingRequests s1),
                          completions := completions s1 @ [(w, Rejected ws_not_open)]\<rparr>
                   | Transmitted \<Rightarrow>
                       (setTimer (PongTimeout w) (s1\<lparr>outbox := outbox s1 @ [(k, PingFrame i)]\<rparr>))
                         \<lparr>requestId := Suc i\<rparr>
                   | Dropped \<Rightarrow> (setTimer (PongTimeout w) s1)\<lparr>requestId := Suc i\<rparr>))"

text \<open>
  The callback of the timeout armed by \<open>sendPing\<close>:
  \<open>if (this.pendingRequests.has(this.requestId)) { this.pendingRequests.delete(this.requestId);
  reject(new Error(`PONG timeout for ID: ${this.requestId}`)); }\<close>, with \<open>reject\<close> the
  callback of the waiter the timer belongs to.
\<close>

definition pongTimeout :: "nat \<Rightarrow> 'n client \<Rightarrow> 'n client" where
  "pongTimeout w s =
     (if requestId s \<in> fst ` set (pendingRequests s)
      then s\<lparr>pendingRequests := AList.delete (requestId s) (pendingRequests s),
             completions := completions s @
               [(w, Rejected (''PONG timeout for ID: '' @ dec (requestId s)))]\<rparr>
      else s)"

definition sendPong :: "nat \<Rightarrow> 'n client \<Rightarrow> 'n client" where
  "sendPong pingId s =
     (case ws s of
        None \<Rightarrow> s
      | Some k \<Rightarrow>
          if \<not> isConnected s then s
          else (case ws_send s k of
                  Transmitted \<Rightarrow> s\<lparr>outbox := outbox s @ [(k, PongFrame pingId)]\<rparr>
                | Thrown \<Rightarrow> s
                | Dropped \<Rightarrow> s))"

text \<open>Lower-case hexadecimal, as \<open>digest("hex")\<close> writes a buffer.\<close>

definition hex_byte :: "8 word \<Rightarrow> string" where
  "hex_byte b = [''0123456789abcdef'' ! (unat b div 16), ''0123456789abcdef'' ! (unat b mod 16)]"

definition hex :: "8 word list \<Rightarrow> string" where
  "hex bs = concat (map hex_byte bs)"

definition signing_string :: "string \<Rightarrow> string \<Rightarrow> int \<Rightarrow> string" where
  "signing_string chan ev ts = ''channel='' @ chan @ ''&event='' @ ev @ ''&time='' @ show_int ts"

definition generateSignature :: "'n platform \<Rightarrow> string \<Rightarrow> string \<Rightarrow> string \<Rightarrow> int \<Rightarrow> string" where
  "generateSignature P secret chan ev ts = hex (hmac_sha512 P secret (signing_string chan ev ts))"

definition balanceMessage :: "'n platform \<Rightarrow> string \<Rightarrow> string \<Rightarrow> int \<Rightarrow> subscribe_frame" where
  "balanceMessage P key secret ts =
     \<lparr>sub_time = ts, sub_channel = ''spot.balances'', sub_event = ''subscribe'',
      auth_method = ''api_key'', auth_KEY = key,
      auth_SIGN = generateSignature P secret ''spot.balances'' ''subscribe'' ts\<rparr>"

text \<open>
  \<open>subscribeToBalances\<close>; \<open>timestamp = Math.floor(Date.now() / 1000)\<close>. An exception of
  \<open>ws.send\<close> is rethrown and caught (and logged) by both callers.
\<close>

definition subscribeToBalances :: "'n platform \<Rightarrow> int \<Rightarrow> 'n client \<Rightarrow> 'n client" where
  "subscribeToBalances P now s =
     (case ws s of
        None \<Rightarrow> s
      | Some k \<Rightarrow>
          if \<not> isConnected s then s
          else (case ws_send s k of
                  Transmitted \<Rightarrow>
                    s\<lparr>outbox := outbox s @
                        [(k, SubscribeFrame (balanceMessage P (apiKey s) (apiSecret s) (now div 1000)))]\<rparr>
                | Thrown \<Rightarrow> s
                | Dropped \<Rightarrow> s))"

definition startPingInterval :: "int \<Rightarrow> 'n client \<Rightarrow> 'n client" where
  "startPingInterval now s =
     (let s1 = sendPing now s; h = nextTimer s1
      in (setTimer PingInterval s1)\<lparr>pingInterval := Some h\<rparr>)"

definition pingTick :: "int \<Rightarrow> 'n client \<Rightarrow> 'n client" where
  "pingTick now s = (if isConnected s \<and> ws s \<noteq> None then sendPing now s else s)"

definition startBalanceInterval :: "'n client \<Rightarrow> 'n client" where
  "startBalanceInterval s =
     (let s1 = setTimer InitialBalance s; h = nextTimer s1
      in (setTimer BalanceInterval s1)\<lparr>balanceInterval := Some h\<rparr>)"

definition balanceTick :: "'n platform \<Rightarrow> int \<Rightarrow> 'n client \<Rightarrow> 'n client" where
  "balanceTick P now s =
     (if isConnected s \<and> ws s \<noteq> None \<and> isAuthenticated s
      then (if now - lastConnectionTime s > 120000 then subscribeToBalances P now s else s)
      else s)"

text \<open>
  \<open>handleBalanceUpdate\<close>. \<open>balanceData.find((item) => item.currency === "USDT")\<close> reads
  the elements in order up to the first match and throws on \<open>null\<close>;
  \<open>balanceData.map((item) => item.currency)\<close> reads them all. \<open>x || "0"\<close> is \<open>"0"\<close> for a
  falsy \<open>x\<close>; \<open>join(", ")\<close> writes nothing for an absent member. The whole body is
  inside \<open>try\<close>, and the \<open>catch\<close> logs the exception.
\<close>

fun find_usdt :: "balance option list \<Rightarrow> error + balance option" where
  "find_usdt [] = Inr None"
| "find_usdt (None # items) = Inl TypeError"
| "find_usdt (Some item # items) =
     (if currency item = Text ''USDT'' then Inr (Some item) else find_usdt items)"

fun currencies :: "balance option list \<Rightarrow> error + field list" where
  "currencies [] = Inr []"
| "currencies (None # items) = Inl TypeError"
| "currencies (Some item # items) =
     (case currencies items of Inl e \<Rightarrow> Inl e | Inr cs \<Rightarrow> Inr (currency item # cs))"

definition or_zero :: "field \<Rightarrow> string" where
  "or_zero v =
     (case v of
        Missing \<Rightarrow> ''0''
      | Text t \<Rightarrow> if t = [] then ''0'' else t
      | Other b r \<Rightarrow> if b then r else ''0'')"

definition truthy :: "field \<Rightarrow> string option" where
  "truthy v =
     (case v of
        Missing \<Rightarrow> None
      | Text t \<Rightarrow> if t = [] then None else Some t
      | Other b r \<Rightarrow> if b then Some r else None)"

definition shown :: "field \<Rightarrow> string" where
  "shown v = (case v of Missing \<Rightarrow> [] | Text t \<Rightarrow> t | Other b r \<Rightarrow> r)"

fun join :: "string list \<Rightarrow> string" where
  "join [] = []"
| "join [x] = x"
| "join (x # y # ys) = x @ '', '' @ join (y # ys)"

definition handleBalanceUpdate :: "'n platform \<Rightarrow> payload \<Rightarrow> 'n observation" where
  "handleBalanceUpdate P balanceData =
     (case balanceData of
        Balances items \<Rightarrow>
          (case find_usdt items of
             Inl e \<Rightarrow> ProcessingError
           | Inr found \<Rightarrow>
               (case found of
                  Some usdtBalance \<Rightarrow>
                    (let avail = parseFloat P (or_zero (available usdtBalance));
                         lock = parseFloat P (or_zero (locked usdtBalance));
                         total = float_add P avail lock
                     in UsdtBalance (toFixed P avail 6) (toFixed P lock 6) (toFixed P total 6)
                          (truthy (change_type usdtBalance)))
                | None \<Rightarrow>
                    (case currencies items of
                       Inl e \<Rightarrow> ProcessingError
                     | Inr cs \<Rightarrow> UsdtNotFound (join (map shown cs)))))
      | Absent \<Rightarrow> UnexpectedFormat
      | Str t \<Rightarrow> UnexpectedFormat
      | Opaque t \<Rightarrow> UnexpectedFormat)"

text \<open>\<open>message.id && this.pendingRequests.has(message.id)\<close>: the id 0 is falsy.\<close>

definition has_pending :: "'n client \<Rightarrow> frame \<Rightarrow> bool" where
  "has_pending s m =
     (case f_id m of
        None \<Rightarrow> False
      | Some i \<Rightarrow> i \<noteq> 0 \<and> i \<in> fst ` set (pendingRequests s))"

definition api_error_text :: "api_error \<Rightarrow> string" where
  "api_error_text e =
     ''API Error: '' @ (case err_message e of None \<Rightarrow> ''undefined'' | Some t \<Rightarrow> t)"

text \<open>
  \<open>handleMessage\<close> of the balance-aware client, branch by branch. \<open>now\<close> is the clock
  reading the latency is computed from, \<open>now2\<close> the one stored as \<open>timestamp\<close> of the
  resolution.
\<close>

definition handleMessage :: "'n platform \<Rightarrow> int \<Rightarrow> int \<Rightarrow> frame \<Rightarrow> 'n client \<Rightarrow> 'n client" where
  "handleMessage P now now2 m s =
     (if has_pending s m \<and> f_result m = Str ''pong'' then
        (case map_of (pendingRequests s) (the (f_id m)) of
           Some pendingRequest \<Rightarrow>
             s\<lparr>completions := completions s @
                  [(waiter pendingRequest, Resolved (Latency (now - timestamp pendingRequest) now2))],
               pendingRequests := AList.delete (the (f_id m)) (pendingRequests s)\<rparr>
         | None \<Rightarrow> s)
      else if has_pending s m then
        (case map_of (pendingRequests s) (the (f_id m)) of
           Some pendingRequest \<Rightarrow>
             s\<lparr>completions := completions s @
                  [(waiter pendingRequest,
                    (case f_error m of
                       Some e \<Rightarrow> Rejected (api_error_text e)
                     | None \<Rightarrow> Resolved (Result (f_result m))))],
               pendingRequests := AList.delete (the (f_id m)) (pendingRequests s)\<rparr>
         | None \<Rightarrow> s)
      else if f_channel m = Some ''spot.balances'' \<and> f_event m = Some ''update'' then
        s\<lparr>console := console s @ [handleBalanceUpdate P (f_result m)]\<rparr>
      else if f_channel m = Some ''spot.balances'' \<and> f_event m = Some ''subscribe'' then
        (case f_error m of
           Some e \<Rightarrow>
             (let s1 = s\<lparr>isAuthenticated := False\<rparr>
              in if err_code e = Some 1 then stopReconnection s1 else s1)
         | None \<Rightarrow> s\<lparr>isAuthenticated := True\<rparr>)
      else if f_method m = Some ''server.ping'' \<and> f_id m \<noteq> None \<and> f_id m \<noteq> Some 0 then
        sendPong (the (f_id m)) s
      else s)"

text \<open>
  \<open>handleMessage\<close> of the plain ping-pong client: the pong branch tests the result
  first and looks the entry up with \<open>get\<close>; the rest only logs.
\<close>

definition handleMessage_pingpong :: "int \<Rightarrow> int \<Rightarrow> frame \<Rightarrow> 'n client \<Rightarrow> 'n client" where
  "handleMessage_pingpong now now2 m s =
     (if f_result m = Str ''pong'' \<and> f_id m \<noteq> None \<and> f_id m \<noteq> Some 0 then
        (case map_of (pendingRequests s) (the (f_id m)) of
           Some pendingRequest \<Rightarrow>
             s\<lparr>completions := completions s @
                  [(waiter pendingRequest, Resolved (Latency (now - timestamp pendingRequest) now2))],
               pendingRequests := AList.delete (the (f_id m)) (pendingRequests s)\<rparr>
         | None \<Rightarrow> s)
      else if has_pending s m then
        (case map_of (pendingRequests s) (the (f_id m)) of
           Some pendingRequest \<Rightarrow>
             s\<lparr>completions := completions s @
                  [(waiter pendingRequest,
                    (case f_error m of
                       Some e \<Rightarrow> Rejected (api_error_text e)
                     | None \<Rightarrow> Resolved (Result (f_result m))))],
               pendingRequests := AList.delete (the (f_id m)) (pendingRequests s)\<rparr>
         | None \<Rightarrow> s)
      else s)"

text \<open>The status queries.\<close>

record connection_status =
  connected :: bool
  authenticated :: bool
  st_reconnecting :: bool

record reconnect_status =
  attempts :: nat
  maxAttempts :: nat
  reconnecting :: bool

definition getConnectionStatus :: "'n client \<Rightarrow> connection_status" where
  "getConnectionStatus s =
     \<lparr>connected = isConnected s, authenticated = isAuthenticated s,
      st_reconnecting = isReconnecting s\<rparr>"

definition getReconnectStatus :: "'n client \<Rightarrow> reconnect_status" where
  "getReconnectStatus s =
     \<lparr>attempts = reconnectAttempts s, maxAttempts = maxReconnectAttempts,
      reconnecting = isReconnecting s\<rparr>"

text \<open>
  \<open>close()\<close>. \<open>ws.close()\<close> puts a connecting or open socket into the closing state; the
  promise of \<open>close()\<close> is resolved by the \<open>close\<close> event of that socket.
\<close>

definition ws_close :: "nat \<Rightarrow> 'n client \<Rightarrow> 'n client" where
  "ws_close k s =
     (case sock s k of
        None \<Rightarrow> s
      | Some c \<Rightarrow>
          (case readyState c of
             CONNECTING \<Rightarrow> setReadyState k CLOSING s
           | OPEN \<Rightarrow> setReadyState k CLOSING s
           | CLOSING \<Rightarrow> s
           | CLOSED \<Rightarrow> s))"

definition close :: "'n client \<Rightarrow> 'n client" where
  "close s =
     (let s1 = rejectAllPendingRequests ''Connection closed by user''
                 (stopReconnection (stopIntervals s))
      in case ws s1 of None \<Rightarrow> s1 | Some k \<Rightarrow> ws_close k s1)"

subsection \<open>The handlers registered by \<open>connect\<close>, and the events\<close>

definition settle :: "nat \<Rightarrow> 'n client \<Rightarrow> 'n client" where
  "settle k s =
     (if k < length (sockets s)
      then s\<lparr>sockets := (sockets s)[k := (sockets s ! k)\<lparr>settled := True\<rparr>]\<rparr>
      else s)"

text \<open>
  Whether \<open>reject\<close> of the promise of call \<open>k\<close> reaches the \<open>catch\<close> of the reconnect
  timer, which calls \<open>scheduleReconnect\<close> once the running handler has returned.
\<close>

definition caught :: "'n client \<Rightarrow> nat \<Rightarrow> bool" where
  "caught s k = (case sock s k of None \<Rightarrow> False | Some c \<Rightarrow> awaited c \<and> \<not> settled c)"

definition clearConnectionTimeout :: "nat \<Rightarrow> 'n client \<Rightarrow> 'n client" where
  "clearConnectionTimeout k s =
     (case sock s k of None \<Rightarrow> s | Some c \<Rightarrow> clearTimer (connectionTimeout c) s)"

definition onConnectionTimeout :: "nat \<Rightarrow> 'n client \<Rightarrow> 'n client" where
  "onConnectionTimeout k s =
     (let s1 = scheduleReconnect (settle k s)
      in if caught s k then scheduleReconnect s1 else s1)"

definition onOpen :: "nat \<Rightarrow> int \<Rightarrow> 'n client \<Rightarrow> 'n client" where
  "onOpen k now s =
     setTimer (SettleDelay k)
       ((clearConnectionTimeout k (setReadyState k OPEN s))
          \<lparr>isConnected := True, isReconnecting := False, reconnectAttempts := 0,
           lastConnectionTime := now\<rparr>)"

definition afterSettle :: "nat \<Rightarrow> int \<Rightarrow> 'n client \<Rightarrow> 'n client" where
  "afterSettle k now s = settle k (startBalanceInterval (startPingInterval now s))"

definition onClose :: "nat \<Rightarrow> 'n client \<Rightarrow> 'n client" where
  "onClose k s = handleDisconnection (clearConnectionTimeout k (setReadyState k CLOSED s))"

definition onError :: "nat \<Rightarrow> 'n client \<Rightarrow> 'n client" where
  "onError k s =
     (let s1 = settle k (handleDisconnection (clearConnectionTimeout k (setReadyState k CLOSING s)))
      in if caught s k then scheduleReconnect s1 else s1)"

text \<open>The callback of an armed timer; a timeout is disarmed by firing, an interval is not.\<close>

definition fire :: "'n platform \<Rightarrow> int \<Rightarrow> timer \<Rightarrow> 'n client \<Rightarrow> 'n client" where
  "fire P now t s =
     (case t of
        ConnectionTimeout k \<Rightarrow> onConnectionTimeout k s
      | SettleDelay k \<Rightarrow> afterSettle k now s
      | ReconnectTimer d \<Rightarrow> connect True s
      | PingInterval \<Rightarrow> pingTick now s
      | InitialBalance \<Rightarrow> subscribeToBalances P now s
      | BalanceInterval \<Rightarrow> balanceTick P now s
      | PongTimeout w \<Rightarrow> pongTimeout w s)"

definition timerFired :: "'n platform \<Rightarrow> nat \<Rightarrow> int \<Rightarrow> 'n client \<Rightarrow> 'n client" where
  "timerFired P h now s =
     (case map_of (timers s) h of
        None \<Rightarrow> s
      | Some t \<Rightarrow> fire P now t (if repeats t then s else clearTimer h s))"

text \<open>
  What can happen to the client: an event of one of its sockets (a frame that does not
  parse is only logged), an armed timer firing, and the caller invoking \<open>close()\<close>.
\<close>

datatype event =
    SocketOpen nat int
  | SocketMessage nat int int frame
  | SocketMalformed nat
  | SocketClose nat
  | SocketError nat
  | TimerFired nat int
  | CallClose

definition socket_in :: "'n client \<Rightarrow> nat \<Rightarrow> readyState set \<Rightarrow> bool" where
  "socket_in s k R = (case sock s k of None \<Rightarrow> False | Some c \<Rightarrow> readyState c \<in> R)"

fun enabled :: "event \<Rightarrow> 'n client \<Rightarrow> bool" where
  "enabled (SocketOpen k now) s = socket_in s k {CONNECTING}"
| "enabled (SocketMessage k now now2 m) s = socket_in s k {OPEN, CLOSING}"
| "enabled (SocketMalformed k) s = socket_in s k {OPEN, CLOSING}"
| "enabled (SocketClose k) s = socket_in s k {CONNECTING, OPEN, CLOSING}"
| "enabled (SocketError k) s = socket_in s k {CONNECTING, OPEN, CLOSING}"
| "enabled (TimerFired h now) s = (h \<in> fst ` set (timers s))"
| "enabled CallClose s = True"

fun dispatch :: "'n platform \<Rightarrow> event \<Rightarrow> 'n client \<Rightarrow> 'n client" where
  "dispatch P (SocketOpen k now) s = onOpen k now s"
| "dispatch P (SocketMessage k now now2 m) s = handleMessage P now now2 m s"
| "dispatch P (SocketMalformed k) s = s"
| "dispatch P (SocketClose k) s = onClose k s"
| "dispatch P (SocketError k) s = onError k s"
| "dispatch P (TimerFired h now) s = timerFired P h now s"
| "dispatch P CallClose s = close s"

definition step :: "'n platform \<Rightarrow> event \<Rightarrow> 'n client \<Rightarrow> 'n client option" where
  "step P e s = (if enabled e s then Some (dispatch P e s) else None)"

fun run :: "'n platform \<Rightarrow> event list \<Rightarrow> 'n client \<Rightarrow> 'n client option" where
  "run P [] s = Some s"
| "run P (e # es) s = (case step P e s of None \<Rightarrow> None | Some s' \<Rightarrow> run P es s')"

subsection \<open>Predicates on states and runs\<close>

definition is_open :: "event \<Rightarrow> bool" where
  "is_open e = (case e of SocketOpen k now \<Rightarrow> True | _ \<Rightarrow> False)"

text \<open>
  A subscribe acknowledgement of the balance channel whose error object has the code 1,
  the test of \<open>handleMessage\<close> before it calls \<open>stopReconnection\<close>.
\<close>

definition auth_failure :: "frame \<Rightarrow> bool" where
  "auth_failure m =
     (f_channel m = Some ''spot.balances'' \<and> f_event m = Some ''subscribe''
      \<and> (\<exists>e. f_error m = Some e \<and> err_code e = Some 1))"

text \<open>The armed reconnect timers, with their handles.\<close>

definition reconnectTimers :: "'n client \<Rightarrow> (nat \<times> timer) set" where
  "reconnectTimers s = {p \<in> set (timers s). \<exists>d. snd p = ReconnectTimer d}"

text \<open>Every key of the table is a positive id already used up, and its waiter a promise already created.\<close>

definition pending_ok :: "'n client \<Rightarrow> bool" where
  "pending_ok s =
     (0 < requestId s
      \<and> (\<forall>(i, p) \<in> set (pendingRequests s). 0 < i \<and> i < requestId s \<and> waiter p < nextWaiter s))"

text \<open>The three values the pair of attempt counter and reconnecting flag takes.\<close>

definition reconnect_ok :: "'n client \<Rightarrow> bool" where
  "reconnect_ok s =
     (reconnectAttempts s = 0 \<and> \<not> isReconnecting s
      \<or> reconnectAttempts s = 1 \<and> isReconnecting s
      \<or> reconnectAttempts s = maxReconnectAttempts \<and> \<not> isReconnecting s)"

definition exhausted :: "'n client \<Rightarrow> bool" where
  "exhausted s = (reconnectAttempts s = maxReconnectAttempts \<and> \<not> isReconnecting s)"

text \<open>
  The promises numbered below \<open>n\<close> are out of the table, and each successful
  resolution of one of them is among \<open>c\<close>.
\<close>

definition sealed :: "nat \<Rightarrow> (nat \<times> outcome) set \<Rightarrow> 'n client \<Rightarrow> bool" where
  "sealed n c s =
     (n \<le> nextWaiter s
      \<and> (\<forall>(i, p) \<in> set (pendingRequests s). n \<le> waiter p)
      \<and> (\<forall>(w, out) \<in> set (completions s). w < n \<longrightarrow> (\<exists>r. out = Resolved r) \<longrightarrow> (w, out) \<in> c))"

text \<open>
  What the two id-matching branches of \<open>handleMessage\<close> pass to the callbacks of the
  entry \<open>p\<close> found under the id of frame \<open>m\<close>.
\<close>

definition reply :: "int \<Rightarrow> int \<Rightarrow> frame \<Rightarrow> pending \<Rightarrow> outcome" where
  "reply now now2 m p =
     (if f_result m = Str ''pong'' then Resolved (Latency (now - timestamp p) now2)
      else (case f_error m of
              Some e \<Rightarrow> Rejected (api_error_text e)
            | None \<Rightarrow> Resolved (Result (f_result m))))"

text \<open>Frames handed to a message handler one after the other, each with its two clock readings.\<close>

fun deliver ::
  "(int \<Rightarrow> int \<Rightarrow> frame \<Rightarrow> 'n client \<Rightarrow> 'n client) \<Rightarrow> (int \<times> int \<times> frame) list \<Rightarrow> 'n client \<Rightarrow> 'n client"
where
  "deliver h [] s = s"
| "deliver h ((now, now2, m) # ms) s = deliver h ms (h now now2 m s)"

text \<open>A handler that acts on a matched frame and on an unmatched one as the two of the clients do.\<close>

definition correlates :: "(int \<Rightarrow> int \<Rightarrow> frame \<Rightarrow> 'n client \<Rightarrow> 'n client) \<Rightarrow> bool" where
  "correlates h =
     ((\<forall>now now2 m s i p. f_id m = Some i \<longrightarrow> i \<noteq> 0 \<longrightarrow> map_of (pendingRequests s) i = Some p \<longrightarrow>
          h now now2 m s =
            s\<lparr>completions := completions s @ [(waiter p, reply now now2 m p)],
              pendingRequests := AList.delete i (pendingRequests s)\<rparr>)
      \<and> (\<forall>now now2 m s. \<not> has_pending s m \<longrightarrow>
            pendingRequests (h now now2 m s) = pendingRequests s
            \<and> completions (h now now2 m s) = completions s))"

text \<open>
  The table and the calls of the callbacks fit together: a promise whose callback has
  been called is among those created, no two entries hold the same promise, and no
  promise in the table has had a callback called.
\<close>

definition logged_ok :: "'n client \<Rightarrow> bool" where
  "logged_ok s = (\<forall>(w, out) \<in> set (completions s). w < nextWaiter s)"

definition waiters_distinct :: "'n client \<Rightarrow> bool" where
  "waiters_distinct s =
     (\<forall>(i, p) \<in> set (pendingRequests s). \<forall>(j, q) \<in> set (pendingRequests s).
        waiter p = waiter q \<longrightarrow> i = j)"

definition unanswered :: "'n client \<Rightarrow> bool" where
  "unanswered s = (\<forall>(i, p) \<in> set (pendingRequests s). waiter p \<notin> fst ` set (completions s))"

definition tidy :: "'n client \<Rightarrow> bool" where
  "tidy s = (pending_ok s \<and> logged_ok s \<and> waiters_distinct s \<and> unanswered s)"

text \<open>The part of the state the request correlator works on.\<close>

definition reqs :: "'n client \<Rightarrow> (nat \<times> pending) list \<times> nat \<times> nat \<times> (nat \<times> outcome) list" where
  "reqs s = (pendingRequests s, requestId s, nextWaiter s, completions s)"

text \<open>
  The events that call \<open>stopReconnection\<close>: \<open>close()\<close>, and a subscribe acknowledgement
  with error code 1.
\<close>

definition stops :: "event \<Rightarrow> bool" where
  "stops e =
     (case e of CallClose \<Rightarrow> True | SocketMessage k now now2 m \<Rightarrow> auth_failure m | _ \<Rightarrow> False)"

text \<open>The two values the counter and the flag take while reconnection has not been stopped.\<close>

definition retrying :: "'n client \<Rightarrow> bool" where
  "retrying s =
     (reconnectAttempts s = 0 \<and> \<not> isReconnecting s \<or> reconnectAttempts s = 1 \<and> isReconnecting s)"

text \<open>No frame can be sent: \<open>this.ws\<close> is null, or its socket is not open.\<close>

definition send_blocked :: "'n client \<Rightarrow> bool" where
  "send_blocked s = (case ws s of None \<Rightarrow> True | Some k \<Rightarrow> ws_send s k \<noteq> Transmitted)"

text \<open>The part of the state sending depends on and acts on.\<close>

definition line :: "'n client \<Rightarrow> readyState list \<times> nat option \<times> (nat \<times> outframe) list" where
  "line s = (map readyState (sockets s), ws s, outbox s)"

subsection \<open>A platform for concrete runs\<close>

text \<open>
  Plain decimal literals (an optional sign, digits, an optional fraction) read as exact
  rationals, \<open>None\<close> standing for \<open>NaN\<close>; exponents and \<open>Infinity\<close> are left out. On the
  literals used below the doubles of the source are exact as well. \<open>toFixed\<close> rounds to
  the nearest multiple of \<open>10^-digits\<close> (the larger one in a tie) and pads with zeros; it is
  given for magnitudes below \<open>10^21\<close>.
\<close>

definition digit_of :: "char \<Rightarrow> nat option" where
  "digit_of c = map_of (zip ''0123456789'' [0, 1, 2, 3, 4, 5, 6, 7, 8, 9]) c"

definition digits_val :: "string \<Rightarrow> nat" where
  "digits_val ds = foldl (\<lambda>a c. 10 * a + (case digit_of c of None \<Rightarrow> 0 | Some d \<Rightarrow> d)) 0 ds"

definition unsigned_decimal :: "string \<Rightarrow> rat option" where
  "unsigned_decimal t =
     (let ip = takeWhile (\<lambda>c. digit_of c \<noteq> None) t;
          rest = dropWhile (\<lambda>c. digit_of c \<noteq> None) t;
          fp = (case rest of
                  [] \<Rightarrow> []
                | c # r \<Rightarrow> if c = CHR ''.'' then takeWhile (\<lambda>c. digit_of c \<noteq> None) r else [])
      in if ip = [] \<and> fp = [] then None
         else Some (of_nat (digits_val ip) + of_nat (digits_val fp) / 10 ^ length fp))"

definition parse_decimal :: "string \<Rightarrow> rat option" where
  "parse_decimal t =
     (case t of
        [] \<Rightarrow> None
      | c # r \<Rightarrow>
          if c = CHR ''-'' then map_option uminus (unsigned_decimal r)
          else if c = CHR ''+'' then unsigned_decimal r
          else unsigned_decimal t)"

definition nan_add :: "rat option \<Rightarrow> rat option \<Rightarrow> rat option" where
  "nan_add a b = (case a of None \<Rightarrow> None | Some x \<Rightarrow> (case b of None \<Rightarrow> None | Some y \<Rightarrow> Some (x + y)))"

definition fixed_decimal :: "rat option \<Rightarrow> nat \<Rightarrow> string" where
  "fixed_decimal v f =
     (case v of
        None \<Rightarrow> ''NaN''
      | Some x \<Rightarrow>
          (let m = dec (nat \<lfloor>\<bar>x\<bar> * 10 ^ f + 1 / 2\<rfloor>);
               padded = replicate (Suc f - length m) CHR ''0'' @ m;
               k = length padded - f;
               body = (if f = 0 then padded else take k padded @ ''.'' @ drop k padded)
           in if x < 0 then CHR ''-'' # body else body))"

text \<open>No run below depends on the digest, so it is a constant here.\<close>

definition decimal_platform :: "rat option platform" where
  "decimal_platform =
     \<lparr>parseFloat = parse_decimal, float_add = nan_add, toFixed = fixed_decimal,
      hmac_sha512 = (\<lambda>k m. replicate 64 0)\<rparr>"

subsection \<open>Frames and runs used as examples\<close>

text \<open>\<open>{"channel":"spot.balances","event":"subscribe","error":{"code":1,"message":"Invalid key"}}\<close>\<close>

definition auth_failure_frame :: frame where
  "auth_failure_frame =
     \<lparr>f_id = None, f_method = None, f_result = Absent,
      f_error = Some \<lparr>err_code = Some 1, err_message = Some ''Invalid key''\<rparr>,
      f_channel = Some ''spot.balances'', f_event = Some ''subscribe''\<rparr>"

text \<open>\<open>{"id":i,"result":"pong"}\<close>\<close>

definition pong_frame :: "nat \<Rightarrow> frame" where
  "pong_frame i =
     \<lparr>f_id = Some i, f_method = None, f_result = Str ''pong'',
      f_error = None, f_channel = None, f_event = None\<rparr>"

text \<open>\<open>{"channel":"spot.balances","event":"subscribe","result":{"status":"success"}}\<close>\<close>

definition subscribed_frame :: frame where
  "subscribed_frame =
     \<lparr>f_id = None, f_method = None, f_result = Opaque ''{status: success}'',
      f_error = None, f_channel = Some ''spot.balances'', f_event = Some ''subscribe''\<rparr>"

text \<open>
  A run in which the \<open>close\<close> event of a socket arrives after its successor has opened.
  Times are in ms since the constructor ran.
  \<^item> 200: socket 0 opens. 3200: the settle delay ends; ping 1 goes out, answered at 3230.
  \<^item> 8200: the balance subscription is sent; it is acknowledged at 8260.
  \<^item> 13200: the timeout of ping 1 fires.
  \<^item> 20000: socket 0 reports an error (the library starts closing it); a reconnect is
    scheduled in 1000 ms.
  \<^item> 21000: the reconnect timer fires; \<open>connect\<close> creates socket 1, which opens at 21200.
  \<^item> 24200: the settle delay ends; ping 2 goes out on socket 1, answered at 24230.
  \<^item> 29200: the balance subscription is sent on socket 1.
  \<^item> 29250: the \<open>close\<close> event of socket 0 arrives; \<open>handleDisconnection\<close> schedules a
    reconnect in 1000 ms, although socket 1 is open.
  \<^item> 30250: the reconnect timer fires; \<open>connect\<close> creates socket 2, now \<open>this.ws\<close>.
\<close>

definition delayed_close_run :: "event list" where
  "delayed_close_run =
     [SocketOpen 0 200, TimerFired 1 3200, SocketMessage 0 3230 3230 (pong_frame 1),
      TimerFired 4 8200, SocketMessage 0 8260 8260 subscribed_frame, TimerFired 2 13200,
      SocketError 0, TimerFired 6 21000, SocketOpen 1 21200, TimerFired 8 24200,
      SocketMessage 1 24230 24230 (pong_frame 2), TimerFired 11 29200, SocketClose 0,
      TimerFired 13 30250]"

text \<open>
  A run in which the connection is lost and the reconnect is refused.
  \<^item> 200: socket 0 opens. 3200: the settle delay ends; ping 1 goes out.
  \<^item> 5000: socket 0 closes; a reconnect is scheduled in 1000 ms (timer 6).
  \<^item> 6000: the reconnect timer fires; \<open>connect\<close> creates socket 1.
  \<^item> 6100: socket 1 reports an error (the connection is refused) and closes.
\<close>

definition refused_reconnect_run :: "event list" where
  "refused_reconnect_run =
     [SocketOpen 0 200, TimerFired 1 3200, SocketClose 0, TimerFired 6 6000,
      SocketError 1, SocketClose 1]"

text \<open>
  A run in which the connection is lost and the reconnect gets no answer.
  \<^item> 200: socket 0 opens. 3200: the settle delay ends; ping 1 goes out.
  \<^item> 5000: socket 0 closes; a reconnect is scheduled in 1000 ms (timer 6).
  \<^item> 6000: the reconnect timer fires; \<open>connect\<close> creates socket 1 (connection timeout:
    timer 7).
  \<^item> 8200 and 13200: the first balance subscription and the timeout of ping 1, armed at
    3200, fire.
  \<^item> 16000: the connection timeout of socket 1 fires.
\<close>

definition timed_out_reconnect_run :: "event list" where
  "timed_out_reconnect_run =
     [SocketOpen 0 200, TimerFired 1 3200, SocketClose 0, TimerFired 6 6000,
      TimerFired 4 8200, TimerFired 2 13200, TimerFired 7 16000]"

text \<open>
  A run in which the first balance subscription is refused for its credentials.
  \<^item> 200: socket 0 opens. 3200: the settle delay ends; ping 1 goes out, answered at 3230.
  \<^item> 8200: the balance subscription is sent.
  \<^item> 8260: its acknowledgement arrives, with error code 1.
\<close>

definition auth_failure_run :: "event list" where
  "auth_failure_run =
     [SocketOpen 0 200, TimerFired 1 3200, SocketMessage 0 3230 3230 (pong_frame 1),
      TimerFired 4 8200, SocketMessage 0 8260 8260 auth_failure_frame]"


section \<open>What each method leaves alone\<close>

text \<open>
  The properties below concern six fields: the attempt counter and the reconnecting
  flag, the table of pending requests, the id counter, the promises created and the
  calls of their callbacks. Most methods touch few of them.
\<close>

lemma setTimer_fields [simp]:
  "reconnectAttempts (setTimer t s) = reconnectAttempts s"
  "isReconnecting (setTimer t s) = isReconnecting s"
  "pendingRequests (setTimer t s) = pendingRequests s"
  "requestId (setTimer t s) = requestId s"
  "nextWaiter (setTimer t s) = nextWaiter s"
  "completions (setTimer t s) = completions s"
  by (simp_all add: setTimer_def)

lemma clearTimer_fields [simp]:
  "reconnectAttempts (clearTimer h s) = reconnectAttempts s"
  "isReconnecting (clearTimer h s) = isReconnecting s"
  "pendingRequests (clearTimer h s) = pendingRequests s"
  "requestId (clearTimer h s) = requestId s"
  "nextWaiter (clearTimer h s) = nextWaiter s"
  "completions (clearTimer h s) = completions s"
  by (simp_all add: clearTimer_def)

lemma setReadyState_fields [simp]:
  "reconnectAttempts (setReadyState k r s) = reconnectAttempts s"
  "isReconnecting (setReadyState k r s) = isReconnecting s"
  "pendingRequests (setReadyState k r s) = pendingRequests s"
  "requestId (setReadyState k r s) = requestId s"
  "nextWaiter (setReadyState k r s) = nextWaiter s"
  "completions (setReadyState k r s) = completions s"
  "timers (setReadyState k r s) = timers s"
  by (simp_all add: setReadyState_def)

lemma settle_fields [simp]:
  "reconnectAttempts (settle k s) = reconnectAttempts s"
  "isReconnecting (settle k s) = isReconnecting s"
  "pendingRequests (settle k s) = pendingRequests s"
  "requestId (settle k s) = requestId s"
  "nextWaiter (settle k s) = nextWaiter s"
  "completions (settle k s) = completions s"
  "timers (settle k s) = timers s"
  by (simp_all add: settle_def)

lemma clearConnectionTimeout_fields [simp]:
  "reconnectAttempts (clearConnectionTimeout k s) = reconnectAttempts s"
  "isReconnecting (clearConnectionTimeout k s) = isReconnecting s"
  "pendingRequests (clearConnectionTimeout k s) = pendingRequests s"
  "requestId (clearConnectionTimeout k s) = requestId s"
  "nextWaiter (clearConnectionTimeout k s) = nextWaiter s"
  "completions (clearConnectionTimeout k s) = completions s"
  by (simp_all add: clearConnectionTimeout_def split: option.splits)

lemma connect_fields [simp]:
  "reconnectAttempts (connect aw s) = reconnectAttempts s"
  "isReconnecting (connect aw s) = isReconnecting s"
  "pendingRequests (connect aw s) = pendingRequests s"
  "requestId (connect aw s) = requestId s"
  "nextWaiter (connect aw s) = nextWaiter s"
  "completions (connect aw s) = completions s"
  by (simp_all add: connect_def Let_def)

lemma rejectAll_fields [simp]:
  "reconnectAttempts (rejectAllPendingRequests err s) = reconnectAttempts s"
  "isReconnecting (rejectAllPendingRequests err s) = isReconnecting s"
  "pendingRequests (rejectAllPendingRequests err s) = []"
  "requestId (rejectAllPendingRequests err s) = requestId s"
  "nextWaiter (rejectAllPendingRequests err s) = nextWaiter s"
  "timers (rejectAllPendingRequests err s) = timers s"
  by (simp_all add: rejectAllPendingRequests_def)

lemma stopIntervals_fields [simp]:
  "reconnectAttempts (stopIntervals s) = reconnectAttempts s"
  "isReconnecting (stopIntervals s) = isReconnecting s"
  "pendingRequests (stopIntervals s) = pendingRequests s"
  "requestId (stopIntervals s) = requestId s"
  "nextWaiter (stopIntervals s) = nextWaiter s"
  "completions (stopIntervals s) = completions s"
  by (simp_all add: stopIntervals_def Let_def split: option.splits)

lemma stopReconnection_fields [simp]:
  "reconnectAttempts (stopReconnection s) = maxReconnectAttempts"
  "isReconnecting (stopReconnection s) = False"
  "pendingRequests (stopReconnection s) = pendingRequests s"
  "requestId (stopReconnection s) = requestId s"
  "nextWaiter (stopReconnection s) = nextWaiter s"
  "completions (stopReconnection s) = completions s"
  by (simp_all add: stopReconnection_def Let_def split: option.splits)

lemma scheduleReconnect_fields [simp]:
  "pendingRequests (scheduleReconnect s) = pendingRequests s"
  "requestId (scheduleReconnect s) = requestId s"
  "nextWaiter (scheduleReconnect s) = nextWaiter s"
  "completions (scheduleReconnect s) = completions s"
  by (simp_all add: scheduleReconnect_def Let_def)

lemma sendPing_fields [simp]:
  "reconnectAttempts (sendPing now s) = reconnectAttempts s"
  "isReconnecting (sendPing now s) = isReconnecting s"
  by (simp_all add: sendPing_def Let_def split: option.splits sent.splits)

lemma pongTimeout_fields [simp]:
  "reconnectAttempts (pongTimeout w s) = reconnectAttempts s"
  "isReconnecting (pongTimeout w s) = isReconnecting s"
  "requestId (pongTimeout w s) = requestId s"
  "nextWaiter (pongTimeout w s) = nextWaiter s"
  "timers (pongTimeout w s) = timers s"
  by (simp_all add: pongTimeout_def)

lemma sendPong_fields [simp]:
  "reconnectAttempts (sendPong i s) = reconnectAttempts s"
  "isReconnecting (sendPong i s) = isReconnecting s"
  "pendingRequests (sendPong i s) = pendingRequests s"
  "requestId (sendPong i s) = requestId s"
  "nextWaiter (sendPong i s) = nextWaiter s"
  "completions (sendPong i s) = completions s"
  "timers (sendPong i s) = timers s"
  by (simp_all add: sendPong_def split: option.splits sent.splits)

lemma subscribeToBalances_fields [simp]:
  "reconnectAttempts (subscribeToBalances P now s) = reconnectAttempts s"
  "isReconnecting (subscribeToBalances P now s) = isReconnecting s"
  "pendingRequests (subscribeToBalances P now s) = pendingRequests s"
  "requestId (subscribeToBalances P now s) = requestId s"
  "nextWaiter (subscribeToBalances P now s) = nextWaiter s"
  "completions (subscribeToBalances P now s) = completions s"
  "timers (subscribeToBalances P now s) = timers s"
  by (simp_all add: subscribeToBalances_def split: option.splits sent.splits)

lemma startPingInterval_fields [simp]:
  "reconnectAttempts (startPingInterval now s) = reconnectAttempts s"
  "isReconnecting (startPingInterval now s) = isReconnecting s"
  by (simp_all add: startPingInterval_def Let_def)

lemma pingTick_fields [simp]:
  "reconnectAttempts (pingTick now s) = reconnectAttempts s"
  "isReconnecting (pingTick now s) = isReconnecting s"
  by (simp_all add: pingTick_def)

lemma startBalanceInterval_fields [simp]:
  "reconnectAttempts (startBalanceInterval s) = reconnectAttempts s"
  "isReconnecting (startBalanceInterval s) = isReconnecting s"
  "pendingRequests (startBalanceInterval s) = pendingRequests s"
  "requestId (startBalanceInterval s) = requestId s"
  "nextWaiter (startBalanceInterval s) = nextWaiter s"
  "completions (startBalanceInterval s) = completions s"
  by (simp_all add: startBalanceInterval_def Let_def)

lemma balanceTick_fields [simp]:
  "reconnectAttempts (balanceTick P now s) = reconnectAttempts s"
  "isReconnecting (balanceTick P now s) = isReconnecting s"
  "pendingRequests (balanceTick P now s) = pendingRequests s"
  "requestId (balanceTick P now s) = requestId s"
  "nextWaiter (balanceTick P now s) = nextWaiter s"
  "completions (balanceTick P now s) = completions s"
  "timers (balanceTick P now s) = timers s"
  by (simp_all add: balanceTick_def)

lemma ws_close_fields [simp]:
  "reconnectAttempts (ws_close k s) = reconnectAttempts s"
  "isReconnecting (ws_close k s) = isReconnecting s"
  "pendingRequests (ws_close k s) = pendingRequests s"
  "requestId (ws_close k s) = requestId s"
  "nextWaiter (ws_close k s) = nextWaiter s"
  "completions (ws_close k s) = completions s"
  "timers (ws_close k s) = timers s"
  by (simp_all add: ws_close_def split: option.splits readyState.splits)

lemma afterSettle_fields [simp]:
  "reconnectAttempts (afterSettle k now s) = reconnectAttempts s"
  "isReconnecting (afterSettle k now s) = isReconnecting s"
  by (simp_all add: afterSettle_def)

section \<open>The attempt counter and the reconnecting flag\<close>

text \<open>
  \<open>scheduleReconnect\<close> is the only method that increments the counter, and it does so only
  when the flag is down; the flag is lowered by the \<open>open\<close> handler, which zeroes the
  counter, and by \<open>stopReconnection\<close>, which sets it to the maximum.
\<close>

lemma scheduleReconnect_rc [simp]:
  "reconnectAttempts (scheduleReconnect s) =
     (if isReconnecting s \<or> maxReconnectAttempts \<le> reconnectAttempts s then reconnectAttempts s
      else Suc (reconnectAttempts s))"
  "isReconnecting (scheduleReconnect s) =
     (isReconnecting s \<or> reconnectAttempts s < maxReconnectAttempts)"
  by (auto simp: scheduleReconnect_def Let_def)

lemma handleDisconnection_rc [simp]:
  "reconnectAttempts (handleDisconnection s) =
     (if isReconnecting s \<or> maxReconnectAttempts \<le> reconnectAttempts s then reconnectAttempts s
      else Suc (reconnectAttempts s))"
  "isReconnecting (handleDisconnection s) =
     (isReconnecting s \<or> reconnectAttempts s < maxReconnectAttempts)"
  by (auto simp: handleDisconnection_def Let_def)

lemma handleMessage_rc [simp]:
  "reconnectAttempts (handleMessage P now now2 m s) =
     (if \<not> has_pending s m \<and> auth_failure m then maxReconnectAttempts else reconnectAttempts s)"
  "isReconnecting (handleMessage P now now2 m s) =
     (isReconnecting s \<and> \<not> (\<not> has_pending s m \<and> auth_failure m))"
  by (auto simp: handleMessage_def auth_failure_def Let_def split: option.splits)

lemma close_rc [simp]:
  "reconnectAttempts (close s) = maxReconnectAttempts"
  "isReconnecting (close s) = False"
  by (simp_all add: close_def Let_def split: option.splits)

lemma reconnect_ok_timerFired: "reconnect_ok s \<Longrightarrow> reconnect_ok (timerFired P h now s)"
  by (auto simp: reconnect_ok_def timerFired_def fire_def onConnectionTimeout_def Let_def
        maxReconnectAttempts_def
      split: option.splits timer.splits)

lemma reconnect_ok_dispatch:
  assumes "reconnect_ok s"
  shows "reconnect_ok (dispatch P e s)"
proof (cases e)
  case (TimerFired h now)
  then show ?thesis using assms reconnect_ok_timerFired [of s P h now] by simp
qed (use assms in \<open>auto simp: reconnect_ok_def onOpen_def onClose_def onError_def Let_def
       maxReconnectAttempts_def\<close>)

lemma reconnect_ok_init: "reconnect_ok (init key secret)"
  by (simp add: init_def reconnect_ok_def blank_def)

lemma reconnect_ok_run: "reconnect_ok s \<Longrightarrow> run P es s = Some s' \<Longrightarrow> reconnect_ok s'"
proof (induction es arbitrary: s)
  case Nil
  then show ?case by simp
next
  case (Cons e es)
  then obtain s1 where s1: "step P e s = Some s1" and r: "run P es s1 = Some s'"
    by (auto split: option.splits)
  from s1 have "s1 = dispatch P e s" by (simp add: step_def split: if_splits)
  with Cons.prems(1) have "reconnect_ok s1" by (simp add: reconnect_ok_dispatch)
  with Cons.IH r show ?case by blast
qed

section \<open>The request correlator\<close>


lemma set_update_subset: "set (AList.update k v al) \<subseteq> insert (k, v) (set al)"
  by (induction al) auto

lemma set_delete_subset: "set (AList.delete k al) \<subseteq> set al"
  by (auto simp: AList.delete_eq)

lemma has_pending_lookup:
  "has_pending s m \<Longrightarrow> \<exists>i p. f_id m = Some i \<and> i \<noteq> 0 \<and> map_of (pendingRequests s) i = Some p"
  by (auto simp: has_pending_def split: option.splits dest: weak_map_of_SomeI)

lemma lookup_has_pending:
  "f_id m = Some i \<Longrightarrow> i \<noteq> 0 \<Longrightarrow> map_of (pendingRequests s) i = Some p \<Longrightarrow> has_pending s m"
  by (auto simp: has_pending_def dest: map_of_SomeD intro: rev_image_eqI)

text \<open>The message handlers on a frame whose id is in the table, and on any other frame.\<close>

lemma handleMessage_matched:
  assumes "f_id m = Some i" "i \<noteq> 0" "map_of (pendingRequests s) i = Some p"
  shows "handleMessage P now now2 m s =
           s\<lparr>completions := completions s @ [(waiter p, reply now now2 m p)],
             pendingRequests := AList.delete i (pendingRequests s)\<rparr>"
  using assms lookup_has_pending [OF assms]
  by (simp add: handleMessage_def reply_def split: option.splits)

lemma handleMessage_unmatched [simp]:
  assumes "\<not> has_pending s m"
  shows "pendingRequests (handleMessage P now now2 m s) = pendingRequests s"
    and "completions (handleMessage P now now2 m s) = completions s"
  using assms by (simp_all add: handleMessage_def Let_def split: option.splits)

lemma handleMessage_ids [simp]:
  "requestId (handleMessage P now now2 m s) = requestId s"
  "nextWaiter (handleMessage P now now2 m s) = nextWaiter s"
  by (simp_all add: handleMessage_def Let_def split: option.splits)

lemma handleMessage_pingpong_matched:
  assumes "f_id m = Some i" "i \<noteq> 0" "map_of (pendingRequests s) i = Some p"
  shows "handleMessage_pingpong now now2 m s =
           s\<lparr>completions := completions s @ [(waiter p, reply now now2 m p)],
             pendingRequests := AList.delete i (pendingRequests s)\<rparr>"
  using assms lookup_has_pending [OF assms]
  by (simp add: handleMessage_pingpong_def reply_def split: option.splits)

lemma handleMessage_pingpong_unmatched:
  assumes "\<not> has_pending s m"
  shows "handleMessage_pingpong now now2 m s = s"
proof (cases "f_id m")
  case None
  with assms show ?thesis by (simp add: handleMessage_pingpong_def)
next
  case (Some i)
  with assms have "i = 0 \<or> map_of (pendingRequests s) i = None"
    by (auto simp: has_pending_def map_of_eq_None_iff)
  with Some assms show ?thesis by (auto simp: handleMessage_pingpong_def)
qed



lemma reqs_frame [simp]:
  "reqs (setTimer t s) = reqs s"
  "reqs (clearTimer h s) = reqs s"
  "reqs (setReadyState k r s) = reqs s"
  "reqs (settle k s) = reqs s"
  "reqs (clearConnectionTimeout k s) = reqs s"
  "reqs (connect aw s) = reqs s"
  "reqs (stopIntervals s) = reqs s"
  "reqs (stopReconnection s) = reqs s"
  "reqs (scheduleReconnect s) = reqs s"
  "reqs (sendPong i s) = reqs s"
  "reqs (subscribeToBalances P now s) = reqs s"
  "reqs (startBalanceInterval s) = reqs s"
  "reqs (balanceTick P now s) = reqs s"
  "reqs (ws_close k s) = reqs s"
  by (simp_all add: reqs_def)

lemma reqs_update [simp]:
  "reqs (s\<lparr>sockets := a1\<rparr>) = reqs s"
  "reqs (s\<lparr>ws := a2\<rparr>) = reqs s"
  "reqs (s\<lparr>isConnected := a3\<rparr>) = reqs s"
  "reqs (s\<lparr>isAuthenticated := a4\<rparr>) = reqs s"
  "reqs (s\<lparr>pingInterval := a5\<rparr>) = reqs s"
  "reqs (s\<lparr>balanceInterval := a6\<rparr>) = reqs s"
  "reqs (s\<lparr>reconnectInterval := a7\<rparr>) = reqs s"
  "reqs (s\<lparr>reconnectAttempts := a8\<rparr>) = reqs s"
  "reqs (s\<lparr>isReconnecting := a9\<rparr>) = reqs s"
  "reqs (s\<lparr>lastConnectionTime := b1\<rparr>) = reqs s"
  "reqs (s\<lparr>timers := b2\<rparr>) = reqs s"
  "reqs (s\<lparr>nextTimer := b3\<rparr>) = reqs s"
  "reqs (s\<lparr>outbox := b4\<rparr>) = reqs s"
  "reqs (s\<lparr>console := b5\<rparr>) = reqs s"
  by (simp_all add: reqs_def)

lemma reqs_onOpen [simp]: "reqs (onOpen k now s) = reqs s"
  by (simp add: onOpen_def)

lemma reqs_onConnectionTimeout [simp]: "reqs (onConnectionTimeout k s) = reqs s"
  by (simp add: onConnectionTimeout_def Let_def)

lemma reqs_rejectAll [simp]:
  "reqs (rejectAllPendingRequests err s) =
     ([], requestId s, nextWaiter s,
      completions s @ map (\<lambda>(i, p). (waiter p, Rejected err)) (pendingRequests s))"
  by (simp add: reqs_def rejectAllPendingRequests_def)

lemma reqs_handleDisconnection [simp]:
  "reqs (handleDisconnection s) = reqs (rejectAllPendingRequests ''Connection lost'' s)"
  by (simp add: handleDisconnection_def Let_def)

lemma reqs_onClose [simp]:
  "reqs (onClose k s) = reqs (rejectAllPendingRequests ''Connection lost'' s)"
  by (simp add: onClose_def)

lemma reqs_onError [simp]:
  "reqs (onError k s) = reqs (rejectAllPendingRequests ''Connection lost'' s)"
  by (simp add: onError_def Let_def)

lemma reqs_close [simp]:
  "reqs (close s) = reqs (rejectAllPendingRequests ''Connection closed by user'' s)"
  by (simp add: close_def Let_def split: option.splits)

lemma reqs_startPingInterval [simp]: "reqs (startPingInterval now s) = reqs (sendPing now s)"
  by (simp add: startPingInterval_def Let_def)

lemma reqs_afterSettle [simp]: "reqs (afterSettle k now s) = reqs (sendPing now s)"
  by (simp add: afterSettle_def)

text \<open>On the requests every event acts as one of four methods does, or not at all.\<close>

lemma reqs_fire:
  "reqs (fire P now t s) = reqs s
   \<or> reqs (fire P now t s) = reqs (sendPing now s)
   \<or> (\<exists>w. reqs (fire P now t s) = reqs (pongTimeout w s))"
  by (cases t) (auto simp: fire_def pingTick_def)

lemma reqs_timerFired:
  fixes s :: "'n client"
  shows "\<exists>s0 :: 'n client. reqs s0 = reqs s \<and>
     (reqs (timerFired P h now s) = reqs s0
      \<or> reqs (timerFired P h now s) = reqs (sendPing now s0)
      \<or> (\<exists>w. reqs (timerFired P h now s) = reqs (pongTimeout w s0)))"
proof (cases "map_of (timers s) h")
  case None
  then have "timerFired P h now s = s" by (simp add: timerFired_def)
  then show ?thesis by metis
next
  case (Some t)
  define s0 where "s0 = (if repeats t then s else clearTimer h s)"
  have "reqs s0 = reqs s" by (simp add: s0_def)
  moreover have "timerFired P h now s = fire P now t s0"
    using Some by (simp add: timerFired_def s0_def)
  ultimately show ?thesis using reqs_fire [of P now t s0] by metis
qed

lemma reqs_dispatch:
  fixes s :: "'n client"
  shows "\<exists>s0 :: 'n client. reqs s0 = reqs s \<and>
     (reqs (dispatch P e s) = reqs s0
      \<or> (\<exists>now. reqs (dispatch P e s) = reqs (sendPing now s0))
      \<or> (\<exists>w. reqs (dispatch P e s) = reqs (pongTimeout w s0))
      \<or> (\<exists>now now2 m. reqs (dispatch P e s) = reqs (handleMessage P now now2 m s0))
      \<or> (\<exists>err. reqs (dispatch P e s) = reqs (rejectAllPendingRequests err s0)))"
proof (cases e)
  case (SocketOpen k now)
  then have "reqs (dispatch P e s) = reqs s" by simp
  then show ?thesis by metis
next
  case (SocketMessage k now now2 m)
  then have "reqs (dispatch P e s) = reqs (handleMessage P now now2 m s)" by simp
  then show ?thesis by blast
next
  case (SocketMalformed k)
  then have "reqs (dispatch P e s) = reqs s" by simp
  then show ?thesis by metis
next
  case (SocketClose k)
  then have "reqs (dispatch P e s) = reqs (rejectAllPendingRequests ''Connection lost'' s)"
    by simp
  then show ?thesis by blast
next
  case (SocketError k)
  then have "reqs (dispatch P e s) = reqs (rejectAllPendingRequests ''Connection lost'' s)"
    by simp
  then show ?thesis by blast
next
  case (TimerFired h now)
  then show ?thesis using reqs_timerFired [of s P h now] by auto
next
  case CallClose
  then have "reqs (dispatch P e s) = reqs (rejectAllPendingRequests ''Connection closed by user'' s)"
    by simp
  then show ?thesis by blast
qed

subsection \<open>The keys of the table are ids already used up\<close>

lemma pending_ok_fields:
  assumes "pending_ok s"
    and "set (pendingRequests s') \<subseteq> set (pendingRequests s)"
    and "requestId s' = requestId s" and "nextWaiter s \<le> nextWaiter s'"
  shows "pending_ok s'"
  using assms by (fastforce simp: pending_ok_def)

lemma sendPing_effect:
  "nextWaiter (sendPing now s) = Suc (nextWaiter s)"
  "set (completions (sendPing now s)) \<subseteq> set (completions s) \<union> {nextWaiter s} \<times> range Rejected"
  "requestId (sendPing now s) = requestId s \<and> set (pendingRequests (sendPing now s)) \<subseteq> set (pendingRequests s)
   \<or> requestId (sendPing now s) = Suc (requestId s) \<and>
      set (pendingRequests (sendPing now s)) \<subseteq>
        insert (requestId s, \<lparr>waiter = nextWaiter s, timestamp = now\<rparr>) (set (pendingRequests s))"
proof -
  show "nextWaiter (sendPing now s) = Suc (nextWaiter s)"
    by (simp add: sendPing_def Let_def split: option.splits sent.splits)
  show "set (completions (sendPing now s)) \<subseteq> set (completions s) \<union> {nextWaiter s} \<times> range Rejected"
    by (simp add: sendPing_def Let_def split: option.splits sent.splits)
  show "requestId (sendPing now s) = requestId s \<and> set (pendingRequests (sendPing now s)) \<subseteq> set (pendingRequests s)
   \<or> requestId (sendPing now s) = Suc (requestId s) \<and>
      set (pendingRequests (sendPing now s)) \<subseteq>
        insert (requestId s, \<lparr>waiter = nextWaiter s, timestamp = now\<rparr>) (set (pendingRequests s))"
    using set_update_subset [of "requestId s" "\<lparr>waiter = nextWaiter s, timestamp = now\<rparr>" "pendingRequests s"]
      set_delete_subset [of "requestId s" "pendingRequests s"]
    by (simp add: sendPing_def Let_def AList.delete_update_same split: option.splits sent.splits)
qed

lemma pending_ok_sendPing:
  assumes "pending_ok s"
  shows "pending_ok (sendPing now s)"
  using assms sendPing_effect(1) [of now s] sendPing_effect(3) [of now s]
  unfolding pending_ok_def by fastforce

lemma pending_ok_pongTimeout: "pending_ok s \<Longrightarrow> pending_ok (pongTimeout w s)"
  by (auto simp: pending_ok_def pongTimeout_def AList.delete_eq)

lemma pending_ok_handleMessage: "pending_ok s \<Longrightarrow> pending_ok (handleMessage P now now2 m s)"
proof (cases "has_pending s m")
  case True
  assume ok: "pending_ok s"
  from True obtain i p where "f_id m = Some i" "i \<noteq> 0" "map_of (pendingRequests s) i = Some p"
    using has_pending_lookup by blast
  then show ?thesis using ok
    by (auto simp: handleMessage_matched pending_ok_def AList.delete_eq)
next
  case False
  assume "pending_ok s"
  then show ?thesis using False by (simp add: pending_ok_def)
qed

lemma pongTimeout_idle: "pending_ok s \<Longrightarrow> pongTimeout w s = s"
  by (auto simp: pending_ok_def pongTimeout_def)


lemma pending_ok_reqs: "reqs s' = reqs s \<Longrightarrow> pending_ok s \<Longrightarrow> pending_ok s'"
  by (simp add: reqs_def pending_ok_def)

lemma pending_ok_rejectAll: "pending_ok s \<Longrightarrow> pending_ok (rejectAllPendingRequests err s)"
  by (simp add: pending_ok_def)

text \<open>A property of the requests that the four methods keep is kept by every event.\<close>

lemma reqs_invariant:
  fixes s :: "'n client" and Q :: "'n client \<Rightarrow> bool"
  assumes cong: "\<And>s s'. reqs s' = reqs s \<Longrightarrow> Q s \<Longrightarrow> Q s'"
    and keep_ping: "\<And>now s. Q s \<Longrightarrow> Q (sendPing now s)"
    and keep_tmo: "\<And>w s. Q s \<Longrightarrow> Q (pongTimeout w s)"
    and keep_msg: "\<And>now now2 m s. Q s \<Longrightarrow> Q (handleMessage P now now2 m s)"
    and keep_rej: "\<And>err s. Q s \<Longrightarrow> Q (rejectAllPendingRequests err s)"
    and "Q s"
  shows "Q (dispatch P e s)"
proof -
  obtain s0 :: "'n client" where s0: "reqs s0 = reqs s"
    and d: "reqs (dispatch P e s) = reqs s0
      \<or> (\<exists>now. reqs (dispatch P e s) = reqs (sendPing now s0))
      \<or> (\<exists>w. reqs (dispatch P e s) = reqs (pongTimeout w s0))
      \<or> (\<exists>now now2 m. reqs (dispatch P e s) = reqs (handleMessage P now now2 m s0))
      \<or> (\<exists>err. reqs (dispatch P e s) = reqs (rejectAllPendingRequests err s0))"
    using reqs_dispatch [of s P e] by blast
  have q0: "Q s0" using cong [OF s0] \<open>Q s\<close> by simp
  from d consider
      (same) "reqs (dispatch P e s) = reqs s0"
    | (ping) now where "reqs (dispatch P e s) = reqs (sendPing now s0)"
    | (tmo) w where "reqs (dispatch P e s) = reqs (pongTimeout w s0)"
    | (msg) now now2 m where "reqs (dispatch P e s) = reqs (handleMessage P now now2 m s0)"
    | (rej) err where "reqs (dispatch P e s) = reqs (rejectAllPendingRequests err s0)"
    by blast
  then show ?thesis
  proof cases
    case same
    then show ?thesis using q0 by (rule cong)
  next
    case ping
    then show ?thesis using keep_ping [OF q0] by (rule cong)
  next
    case tmo
    then show ?thesis using keep_tmo [OF q0] by (rule cong)
  next
    case msg
    then show ?thesis using keep_msg [OF q0] by (rule cong)
  next
    case rej
    then show ?thesis using keep_rej [OF q0] by (rule cong)
  qed
qed

lemma pending_ok_dispatch: "pending_ok s \<Longrightarrow> pending_ok (dispatch P e s)"
  by (rule reqs_invariant [where Q = pending_ok, OF pending_ok_reqs pending_ok_sendPing
        pending_ok_pongTimeout pending_ok_handleMessage pending_ok_rejectAll])

lemma pending_ok_init: "pending_ok (init key secret)"
  by (simp add: init_def pending_ok_def blank_def)

lemma run_Cons_Some:
  "run P (e # es) s = Some s' \<longleftrightarrow> enabled e s \<and> run P es (dispatch P e s) = Some s'"
  by (simp add: step_def)

lemma pending_ok_run:
  assumes "pending_ok s" and "run P es s = Some s'"
  shows "pending_ok s'"
  using assms
proof (induction es arbitrary: s)
  case Nil
  then show ?case by simp
next
  case (Cons e es)
  from Cons.prems(2) have r: "run P es (dispatch P e s) = Some s'"
    by (simp add: run_Cons_Some del: run.simps(2))
  from Cons.prems(1) have "pending_ok (dispatch P e s)" by (rule pending_ok_dispatch)
  with r show ?case by (rule Cons.IH [rotated])
qed

subsection \<open>Promises that have left the table stay out\<close>

lemma sealed_reqs: "reqs s' = reqs s \<Longrightarrow> sealed n c s \<Longrightarrow> sealed n c s'"
  by (simp add: reqs_def sealed_def)

lemma sealed_sendPing:
  assumes "sealed n c s"
  shows "sealed n c (sendPing now s)"
proof -
  have 1: "n \<le> nextWaiter (sendPing now s)"
    using assms by (simp add: sendPing_effect(1) sealed_def)
  have 2: "\<forall>(i, p) \<in> set (pendingRequests (sendPing now s)). n \<le> waiter p"
    using assms sendPing_effect(3) [of now s] unfolding sealed_def by fastforce
  have 3: "\<forall>(w, out) \<in> set (completions (sendPing now s)).
             w < n \<longrightarrow> (\<exists>r. out = Resolved r) \<longrightarrow> (w, out) \<in> c"
    using assms sendPing_effect(2) [of now s] unfolding sealed_def by fastforce
  from 1 2 3 show ?thesis unfolding sealed_def by blast
qed

lemma sealed_pongTimeout: "sealed n c s \<Longrightarrow> sealed n c (pongTimeout w s)"
  by (auto simp: sealed_def pongTimeout_def AList.delete_eq)

lemma sealed_rejectAll: "sealed n c s \<Longrightarrow> sealed n c (rejectAllPendingRequests err s)"
  by (auto simp: sealed_def rejectAllPendingRequests_def)

lemma sealed_handleMessage:
  assumes "sealed n c s"
  shows "sealed n c (handleMessage P now now2 m s)"
proof (cases "has_pending s m")
  case True
  then obtain i p where ip: "f_id m = Some i" "i \<noteq> 0" "map_of (pendingRequests s) i = Some p"
    using has_pending_lookup by blast
  then have "(i, p) \<in> set (pendingRequests s)" by (simp add: map_of_SomeD)
  with assms have "n \<le> waiter p" by (auto simp: sealed_def)
  with assms show ?thesis
    by (auto simp: handleMessage_matched [OF ip] sealed_def AList.delete_eq)
next
  case False
  with assms show ?thesis by (simp add: sealed_def)
qed

lemma sealed_dispatch: "sealed n c s \<Longrightarrow> sealed n c (dispatch P e s)"
  by (rule reqs_invariant [where Q = "sealed n c", OF sealed_reqs sealed_sendPing
        sealed_pongTimeout sealed_handleMessage sealed_rejectAll])

lemma sealed_run:
  assumes "sealed n c s" and "run P es s = Some s'"
  shows "sealed n c s'"
  using assms
proof (induction es arbitrary: s)
  case Nil
  then show ?case by simp
next
  case (Cons e es)
  from Cons.prems(2) have r: "run P es (dispatch P e s) = Some s'"
    by (simp add: run_Cons_Some del: run.simps(2))
  from Cons.prems(1) have "sealed n c (dispatch P e s)" by (rule sealed_dispatch)
  with r show ?case by (rule Cons.IH [rotated])
qed

section \<open>Once the counter is at its maximum\<close>

lemma reconnectTimers_update [simp]:
  "reconnectTimers (s\<lparr>sockets := a1\<rparr>) = reconnectTimers s"
  "reconnectTimers (s\<lparr>ws := a2\<rparr>) = reconnectTimers s"
  "reconnectTimers (s\<lparr>isConnected := a3\<rparr>) = reconnectTimers s"
  "reconnectTimers (s\<lparr>isAuthenticated := a4\<rparr>) = reconnectTimers s"
  "reconnectTimers (s\<lparr>pingInterval := a5\<rparr>) = reconnectTimers s"
  "reconnectTimers (s\<lparr>balanceInterval := a6\<rparr>) = reconnectTimers s"
  "reconnectTimers (s\<lparr>reconnectInterval := a7\<rparr>) = reconnectTimers s"
  "reconnectTimers (s\<lparr>reconnectAttempts := a8\<rparr>) = reconnectTimers s"
  "reconnectTimers (s\<lparr>isReconnecting := a9\<rparr>) = reconnectTimers s"
  "reconnectTimers (s\<lparr>lastConnectionTime := b1\<rparr>) = reconnectTimers s"
  "reconnectTimers (s\<lparr>nextTimer := b3\<rparr>) = reconnectTimers s"
  "reconnectTimers (s\<lparr>outbox := b4\<rparr>) = reconnectTimers s"
  "reconnectTimers (s\<lparr>console := b5\<rparr>) = reconnectTimers s"
  "reconnectTimers (s\<lparr>requestId := b6\<rparr>) = reconnectTimers s"
  "reconnectTimers (s\<lparr>pendingRequests := b7\<rparr>) = reconnectTimers s"
  "reconnectTimers (s\<lparr>nextWaiter := b8\<rparr>) = reconnectTimers s"
  "reconnectTimers (s\<lparr>completions := b9\<rparr>) = reconnectTimers s"
  by (simp_all add: reconnectTimers_def)

lemma reconnectTimers_setTimer [simp]:
  "reconnectTimers (setTimer (ConnectionTimeout k) s) = reconnectTimers s"
  "reconnectTimers (setTimer (SettleDelay k) s) = reconnectTimers s"
  "reconnectTimers (setTimer PingInterval s) = reconnectTimers s"
  "reconnectTimers (setTimer InitialBalance s) = reconnectTimers s"
  "reconnectTimers (setTimer BalanceInterval s) = reconnectTimers s"
  "reconnectTimers (setTimer (PongTimeout w) s) = reconnectTimers s"
  by (auto simp: reconnectTimers_def setTimer_def)

lemma reconnectTimers_same [simp]:
  "reconnectTimers (setReadyState k r s) = reconnectTimers s"
  "reconnectTimers (settle k s) = reconnectTimers s"
  "reconnectTimers (rejectAllPendingRequests err s) = reconnectTimers s"
  "reconnectTimers (pongTimeout w s) = reconnectTimers s"
  "reconnectTimers (sendPong i s) = reconnectTimers s"
  "reconnectTimers (subscribeToBalances P now s) = reconnectTimers s"
  "reconnectTimers (balanceTick P now s) = reconnectTimers s"
  "reconnectTimers (ws_close k s) = reconnectTimers s"
  by (simp_all add: reconnectTimers_def)

lemma reconnectTimers_connect [simp]: "reconnectTimers (connect aw s) = reconnectTimers s"
  by (simp add: connect_def Let_def)

lemma reconnectTimers_sendPing [simp]: "reconnectTimers (sendPing now s) = reconnectTimers s"
  by (simp add: sendPing_def Let_def split: option.splits sent.splits)

lemma reconnectTimers_pingTick [simp]: "reconnectTimers (pingTick now s) = reconnectTimers s"
  by (simp add: pingTick_def)

lemma reconnectTimers_afterSettle [simp]: "reconnectTimers (afterSettle k now s) = reconnectTimers s"
  by (simp add: afterSettle_def startPingInterval_def startBalanceInterval_def Let_def)

text \<open>Clearing a timer, in a form that composes.\<close>

lemma reconnectTimers_clearTimer [simp]:
  "reconnectTimers s \<subseteq> A \<Longrightarrow> reconnectTimers (clearTimer h s) \<subseteq> A"
  by (auto simp: reconnectTimers_def clearTimer_def)

lemma reconnectTimers_clearConnectionTimeout [simp]:
  "reconnectTimers s \<subseteq> A \<Longrightarrow> reconnectTimers (clearConnectionTimeout k s) \<subseteq> A"
  by (simp add: clearConnectionTimeout_def split: option.splits)

lemma reconnectTimers_stopIntervals [simp]:
  "reconnectTimers s \<subseteq> A \<Longrightarrow> reconnectTimers (stopIntervals s) \<subseteq> A"
  by (simp add: stopIntervals_def Let_def split: option.splits)

lemma reconnectTimers_stopReconnection [simp]:
  "reconnectTimers s \<subseteq> A \<Longrightarrow> reconnectTimers (stopReconnection s) \<subseteq> A"
  by (simp add: stopReconnection_def Let_def split: option.splits)

lemma reconnectTimers_close [simp]:
  "reconnectTimers s \<subseteq> A \<Longrightarrow> reconnectTimers (close s) \<subseteq> A"
  by (simp add: close_def Let_def split: option.splits)

lemma reconnectTimers_handleMessage [simp]:
  "reconnectTimers s \<subseteq> A \<Longrightarrow> reconnectTimers (handleMessage P now now2 m s) \<subseteq> A"
  by (simp add: handleMessage_def Let_def split: option.splits)

lemma scheduleReconnect_exhausted: "exhausted s \<Longrightarrow> scheduleReconnect s = s"
  by (simp add: exhausted_def scheduleReconnect_def)

lemma exhausted_fields:
  "reconnectAttempts s' = reconnectAttempts s \<Longrightarrow> isReconnecting s' = isReconnecting s \<Longrightarrow>
   exhausted s \<Longrightarrow> exhausted s'"
  by (simp add: exhausted_def)

lemma reconnectTimers_handleDisconnection:
  assumes "exhausted s" and "reconnectTimers s \<subseteq> A"
  shows "reconnectTimers (handleDisconnection s) \<subseteq> A"
proof -
  let ?s1 = "rejectAllPendingRequests ''Connection lost''
               (stopIntervals (s\<lparr>isConnected := False, isAuthenticated := False\<rparr>))"
  have "exhausted ?s1" using assms(1) by (simp add: exhausted_def)
  then have "handleDisconnection s = ?s1"
    by (simp add: handleDisconnection_def Let_def scheduleReconnect_exhausted)
  with assms(2) show ?thesis by simp
qed

lemma reconnectTimers_fire:
  assumes "exhausted s" and "reconnectTimers s \<subseteq> A"
  shows "reconnectTimers (fire P now t s) \<subseteq> A"
proof (cases t)
  case (ConnectionTimeout k)
  have "exhausted (settle k s)" using assms(1) by (simp add: exhausted_def)
  then have "onConnectionTimeout k s = settle k s"
    by (simp add: onConnectionTimeout_def Let_def scheduleReconnect_exhausted)
  with ConnectionTimeout assms(2) show ?thesis by (simp add: fire_def)
qed (use assms(2) in \<open>simp_all add: fire_def\<close>)

lemma exhausted_dispatch:
  assumes "exhausted s" and "\<not> is_open e"
  shows "exhausted (dispatch P e s)"
proof (cases e)
  case (TimerFired h now)
  then show ?thesis using assms(1)
    by (auto simp: exhausted_def timerFired_def fire_def onConnectionTimeout_def Let_def
        split: option.splits timer.splits)
qed (use assms in \<open>auto simp: exhausted_def is_open_def onClose_def onError_def Let_def\<close>)

lemma reconnectTimers_dispatch:
  assumes "exhausted s" and "\<not> is_open e"
  shows "reconnectTimers (dispatch P e s) \<subseteq> reconnectTimers s"
proof (cases e)
  case (SocketOpen k now)
  with assms(2) show ?thesis by (simp add: is_open_def)
next
  case (SocketMessage k now now2 m)
  then show ?thesis by simp
next
  case (SocketMalformed k)
  then show ?thesis by simp
next
  case (SocketClose k)
  have "exhausted (clearConnectionTimeout k (setReadyState k CLOSED s))"
    using assms(1) by (simp add: exhausted_def)
  then show ?thesis using SocketClose
    by (simp add: onClose_def reconnectTimers_handleDisconnection)
next
  case (SocketError k)
  let ?s0 = "clearConnectionTimeout k (setReadyState k CLOSING s)"
  have e0: "exhausted ?s0" using assms(1) by (simp add: exhausted_def)
  then have "exhausted (settle k (handleDisconnection ?s0))"
    by (simp add: exhausted_def)
  then have "onError k s = settle k (handleDisconnection ?s0)"
    by (simp add: onError_def Let_def scheduleReconnect_exhausted)
  then show ?thesis using SocketError e0
    by (simp add: reconnectTimers_handleDisconnection)
next
  case (TimerFired h now)
  show ?thesis
  proof (cases "map_of (timers s) h")
    case None
    with TimerFired show ?thesis by (simp add: timerFired_def)
  next
    case (Some t)
    let ?s0 = "if repeats t then s else clearTimer h s"
    have "exhausted ?s0" using assms(1) by (simp add: exhausted_def)
    moreover have "reconnectTimers ?s0 \<subseteq> reconnectTimers s" by simp
    ultimately have "reconnectTimers (fire P now t ?s0) \<subseteq> reconnectTimers s"
      by (rule reconnectTimers_fire)
    with TimerFired Some show ?thesis by (simp add: timerFired_def)
  qed
next
  case CallClose
  then show ?thesis by simp
qed

text \<open>Runs without an \<open>open\<close> event, from a state with the counter at its maximum.\<close>

lemma exhausted_run:
  assumes "exhausted s" and "\<forall>e \<in> set es. \<not> is_open e" and "run P es s = Some s'"
  shows "exhausted s' \<and> reconnectTimers s' \<subseteq> reconnectTimers s"
  using assms
proof (induction es arbitrary: s)
  case Nil
  then show ?case by simp
next
  case (Cons e es)
  from Cons.prems(3) have r: "run P es (dispatch P e s) = Some s'"
    by (simp add: run_Cons_Some del: run.simps(2))
  from Cons.prems have ne: "\<not> is_open e" and rest: "\<forall>e \<in> set es. \<not> is_open e" by simp_all
  have 1: "exhausted (dispatch P e s)" using Cons.prems(1) ne by (rule exhausted_dispatch)
  have 2: "reconnectTimers (dispatch P e s) \<subseteq> reconnectTimers s"
    using Cons.prems(1) ne by (rule reconnectTimers_dispatch)
  from Cons.IH [OF 1 rest r] 2 show ?case by blast
qed

section \<open>What a failed attempt leaves behind\<close>

text \<open>
  A failed attempt does not lower the flag, so while reconnection has not been stopped
  the counter is 0 with the flag down or 1 with the flag up.
\<close>

lemma retrying_timerFired: "retrying s \<Longrightarrow> retrying (timerFired P h now s)"
  by (auto simp: retrying_def timerFired_def fire_def onConnectionTimeout_def Let_def
        maxReconnectAttempts_def
      split: option.splits timer.splits)

lemma retrying_dispatch:
  assumes "retrying s" and "\<not> stops e"
  shows "retrying (dispatch P e s)"
proof (cases e)
  case (TimerFired h now)
  then show ?thesis using assms(1) retrying_timerFired [of s P h now] by simp
qed (use assms in \<open>auto simp: retrying_def stops_def onOpen_def onClose_def onError_def Let_def
       maxReconnectAttempts_def\<close>)

lemma retrying_init: "retrying (init key secret)"
  by (simp add: init_def retrying_def blank_def)

lemma retrying_run:
  assumes "retrying s" and "\<forall>e \<in> set es. \<not> stops e" and "run P es s = Some s'"
  shows "retrying s'"
  using assms
proof (induction es arbitrary: s)
  case Nil
  then show ?case by simp
next
  case (Cons e es)
  from Cons.prems(3) have r: "run P es (dispatch P e s) = Some s'"
    by (simp add: run_Cons_Some del: run.simps(2))
  from Cons.prems have ne: "\<not> stops e" and rest: "\<forall>e \<in> set es. \<not> stops e" by simp_all
  have "retrying (dispatch P e s)" using Cons.prems(1) ne by (rule retrying_dispatch)
  from Cons.IH [OF this rest r] show ?case .
qed

text \<open>Without \<open>close()\<close> and without a failed authentication the counter never exceeds 1.\<close>

lemma retries_stall:
  assumes "run P es (init key secret) = Some s" and "\<forall>e \<in> set es. \<not> stops e"
  shows "reconnectAttempts s \<le> 1"
    and "isReconnecting s \<Longrightarrow> scheduleReconnect s = s"
    and "getReconnectStatus s \<noteq> \<lparr>attempts = 10, maxAttempts = 10, reconnecting = False\<rparr>"
proof -
  have r: "retrying s" using retrying_init assms(2,1) by (rule retrying_run)
  then show "reconnectAttempts s \<le> 1" by (auto simp: retrying_def)
  show "isReconnecting s \<Longrightarrow> scheduleReconnect s = s" by (simp add: scheduleReconnect_def)
  show "getReconnectStatus s \<noteq> \<lparr>attempts = 10, maxAttempts = 10, reconnecting = False\<rparr>"
    using r by (auto simp: retrying_def getReconnectStatus_def)
qed

text \<open>The tenth call leaves the flag up.\<close>

lemma tenth_attempt_status:
  assumes "reconnectAttempts s = 9" and "\<not> isReconnecting s"
  shows "getReconnectStatus (scheduleReconnect s)
           = \<lparr>attempts = 10, maxAttempts = 10, reconnecting = True\<rparr>"
  using assms by (simp add: getReconnectStatus_def maxReconnectAttempts_def)

text \<open>Every reconnect timer a run arms is the first of the series.\<close>

lemma first_delay_scheduleReconnect:
  assumes "reconnect_ok s" and "reconnectTimers s \<subseteq> A" and "\<forall>h. (h, ReconnectTimer 1000) \<in> A"
  shows "reconnectTimers (scheduleReconnect s) \<subseteq> A"
proof (cases "isReconnecting s \<or> maxReconnectAttempts \<le> reconnectAttempts s")
  case True
  then show ?thesis using assms(2) by (simp add: scheduleReconnect_def)
next
  case False
  with assms(1) have "reconnectAttempts s = 0"
    by (auto simp: reconnect_ok_def maxReconnectAttempts_def)
  with False have "reconnectTimers (scheduleReconnect s)
      = insert (nextTimer s, ReconnectTimer 1000) (reconnectTimers s)"
    by (auto simp: scheduleReconnect_def Let_def setTimer_def reconnectTimers_def
        reconnectDelay_def maxReconnectDelay_def)
  with assms(2,3) show ?thesis by simp
qed


lemma reconnect_ok_same:
  "reconnectAttempts s' = reconnectAttempts s \<Longrightarrow> isReconnecting s' = isReconnecting s \<Longrightarrow>
   reconnect_ok s \<Longrightarrow> reconnect_ok s'"
  by (simp add: reconnect_ok_def)

lemma reconnect_ok_scheduleReconnect: "reconnect_ok s \<Longrightarrow> reconnect_ok (scheduleReconnect s)"
  by (auto simp: reconnect_ok_def maxReconnectAttempts_def)

lemma first_delay_handleDisconnection:
  assumes "reconnect_ok s" and "reconnectTimers s \<subseteq> A" and "\<forall>h. (h, ReconnectTimer 1000) \<in> A"
  shows "reconnectTimers (handleDisconnection s) \<subseteq> A"
proof -
  let ?s1 = "rejectAllPendingRequests ''Connection lost''
               (stopIntervals (s\<lparr>isConnected := False, isAuthenticated := False\<rparr>))"
  have ok: "reconnect_ok ?s1" using assms(1) by (simp add: reconnect_ok_def)
  have sub: "reconnectTimers ?s1 \<subseteq> A" using assms(2) by simp
  have "reconnectTimers (scheduleReconnect ?s1) \<subseteq> A"
    using ok sub assms(3) by (rule first_delay_scheduleReconnect)
  with sub show ?thesis by (simp add: handleDisconnection_def Let_def)
qed

lemma first_delay_fire:
  assumes "reconnect_ok s" and "reconnectTimers s \<subseteq> A" and "\<forall>h. (h, ReconnectTimer 1000) \<in> A"
  shows "reconnectTimers (fire P now t s) \<subseteq> A"
proof (cases t)
  case (ConnectionTimeout k)
  let ?s1 = "scheduleReconnect (settle k s)"
  have ok0: "reconnect_ok (settle k s)" using assms(1) by (simp add: reconnect_ok_def)
  have sub0: "reconnectTimers (settle k s) \<subseteq> A" using assms(2) by simp
  have sub1: "reconnectTimers ?s1 \<subseteq> A"
    using ok0 sub0 assms(3) by (rule first_delay_scheduleReconnect)
  have ok1: "reconnect_ok ?s1" using ok0 by (rule reconnect_ok_scheduleReconnect)
  have "reconnectTimers (scheduleReconnect ?s1) \<subseteq> A"
    using ok1 sub1 assms(3) by (rule first_delay_scheduleReconnect)
  with sub1 show ?thesis by (simp add: ConnectionTimeout fire_def onConnectionTimeout_def Let_def)
qed (use assms(2) in \<open>simp_all add: fire_def\<close>)

lemma first_delay_dispatch:
  assumes "reconnect_ok s" and "reconnectTimers s \<subseteq> A" and "\<forall>h. (h, ReconnectTimer 1000) \<in> A"
  shows "reconnectTimers (dispatch P e s) \<subseteq> A"
proof (cases e)
  case (SocketOpen k now)
  then show ?thesis using assms(2) by (simp add: onOpen_def)
next
  case (SocketMessage k now now2 m)
  then show ?thesis using assms(2) by simp
next
  case (SocketMalformed k)
  then show ?thesis using assms(2) by simp
next
  case (SocketClose k)
  let ?s0 = "clearConnectionTimeout k (setReadyState k CLOSED s)"
  have "reconnect_ok ?s0" using assms(1) by (simp add: reconnect_ok_def)
  moreover have "reconnectTimers ?s0 \<subseteq> A" using assms(2) by simp
  ultimately have "reconnectTimers (handleDisconnection ?s0) \<subseteq> A"
    using assms(3) by (rule first_delay_handleDisconnection)
  then show ?thesis by (simp add: SocketClose onClose_def)
next
  case (SocketError k)
  let ?s0 = "clearConnectionTimeout k (setReadyState k CLOSING s)"
  let ?s1 = "settle k (handleDisconnection ?s0)"
  have ok0: "reconnect_ok ?s0" using assms(1) by (simp add: reconnect_ok_def)
  have sub0: "reconnectTimers ?s0 \<subseteq> A" using assms(2) by simp
  have sub1: "reconnectTimers ?s1 \<subseteq> A"
    using first_delay_handleDisconnection [OF ok0 sub0 assms(3)] by simp
  have "reconnect_ok (handleDisconnection ?s0)"
    using ok0 by (auto simp: reconnect_ok_def maxReconnectAttempts_def)
  then have ok1: "reconnect_ok ?s1" by (simp add: reconnect_ok_def)
  have "reconnectTimers (scheduleReconnect ?s1) \<subseteq> A"
    using ok1 sub1 assms(3) by (rule first_delay_scheduleReconnect)
  with sub1 show ?thesis by (simp add: SocketError onError_def Let_def)
next
  case (TimerFired h now)
  show ?thesis
  proof (cases "map_of (timers s) h")
    case None
    with TimerFired assms(2) show ?thesis by (simp add: timerFired_def)
  next
    case (Some t)
    let ?s0 = "if repeats t then s else clearTimer h s"
    have "reconnect_ok ?s0" using assms(1) by (simp add: reconnect_ok_def)
    moreover have "reconnectTimers ?s0 \<subseteq> A" using assms(2) by simp
    ultimately have "reconnectTimers (fire P now t ?s0) \<subseteq> A"
      using assms(3) by (rule first_delay_fire)
    with TimerFired Some show ?thesis by (simp add: timerFired_def)
  qed
next
  case CallClose
  then show ?thesis using assms(2) by simp
qed

lemma first_delay_run:
  assumes "reconnect_ok s" and "reconnectTimers s \<subseteq> A" and "\<forall>h. (h, ReconnectTimer 1000) \<in> A"
    and "run P es s = Some s'"
  shows "reconnectTimers s' \<subseteq> A"
  using assms(1,2,4)
proof (induction es arbitrary: s)
  case Nil
  then show ?case by simp
next
  case (Cons e es)
  from Cons.prems(3) have r: "run P es (dispatch P e s) = Some s'"
    by (simp add: run_Cons_Some del: run.simps(2))
  have 1: "reconnect_ok (dispatch P e s)" using Cons.prems(1) by (rule reconnect_ok_dispatch)
  have 2: "reconnectTimers (dispatch P e s) \<subseteq> A"
    using Cons.prems(1,2) assms(3) by (rule first_delay_dispatch)
  from Cons.IH [OF 1 2 r] show ?case .
qed

lemma only_first_delay_armed:
  assumes "run P es (init key secret) = Some s" and "(h, ReconnectTimer d) \<in> set (timers s)"
  shows "d = 1000"
proof -
  let ?A = "{p :: nat \<times> timer. snd p = ReconnectTimer 1000}"
  have 0: "reconnectTimers (init key secret) \<subseteq> ?A"
    by (auto simp: init_def blank_def connect_def setTimer_def reconnectTimers_def Let_def)
  have a: "\<forall>h. (h, ReconnectTimer 1000) \<in> ?A" by simp
  have "reconnectTimers s \<subseteq> ?A"
    using reconnect_ok_init 0 a assms(1) by (rule first_delay_run)
  moreover have "(h, ReconnectTimer d) \<in> reconnectTimers s"
    using assms(2) by (simp add: reconnectTimers_def)
  ultimately show ?thesis by auto
qed

section \<open>Concrete runs\<close>

text \<open>The definitions a concrete run unfolds to.\<close>

lemmas run_defs =
  step_def init_def blank_def connect_def setTimer_def clearTimer_def sock_def setReadyState_def
  ws_send_def rejectAllPendingRequests_def stopIntervals_def stopReconnection_def
  scheduleReconnect_def handleDisconnection_def sendPing_def pongTimeout_def sendPong_def
  subscribeToBalances_def startPingInterval_def pingTick_def startBalanceInterval_def
  balanceTick_def handleMessage_def has_pending_def close_def ws_close_def settle_def caught_def
  clearConnectionTimeout_def onConnectionTimeout_def onOpen_def afterSettle_def onClose_def
  onError_def fire_def timerFired_def socket_in_def maxReconnectAttempts_def reconnectDelay_def
  maxReconnectDelay_def Let_def

section \<open>The timeout of a ping\<close>

text \<open>
  In every state a run of the client leads to, the callback of the 10 s timeout armed by
  \<open>sendPing\<close> does nothing: it looks up \<open>this.requestId\<close>, which \<open>sendPing\<close> has
  incremented since, and no key of the table is that large.
\<close>

lemma pongTimeout_never_acts:
  assumes "run P es (init key secret) = Some s"
  shows "pongTimeout w s = s"
  using pending_ok_run [OF pending_ok_init assms] by (rule pongTimeout_idle)

text \<open>
  C1 (the code departs from the claim). The claim: when no response arrives within 10 s,
  the timeout removes the entry keyed by the id the ping was sent with and rejects that
  ping's waiter. The run: the socket opens at 1000, the settle delay ends at 4000 and
  \<open>startPingInterval\<close> sends the first ping, id 1, for waiter 0, arming timer 2 as its
  timeout; no frame arrives; timer 2 fires at 14000. By then \<open>requestId\<close> is 2, so
  \<open>pendingRequests.has(2)\<close> is false: the entry of id 1 is still in the table and no
  callback of waiter 0 has been called.
\<close>

theorem sendPing_timeout_leaves_entry:
  "map_option (\<lambda>s. (map_of (timers s) 2, pendingRequests s, completions s))
     (run P [SocketOpen 0 1000, TimerFired 1 4000] (init key secret))
   = Some (Some (PongTimeout 0), [(1, \<lparr>waiter = 0, timestamp = 4000\<rparr>)], [])
   \<and> map_option (\<lambda>s. (requestId s, pendingRequests s, completions s))
     (run P [SocketOpen 0 1000, TimerFired 1 4000, TimerFired 2 14000] (init key secret))
   = Some (2, [(1, \<lparr>waiter = 0, timestamp = 4000\<rparr>)], [])"
  by (simp add: run_defs)

section \<open>Reconnects that fail\<close>

text \<open>
  C2 (the code departs from the claim). The claim is about the attempt counter reaching
  \<open>maxReconnectAttempts\<close> through attempts none of which ends in an \<open>open\<close>, and says that
  \<open>getReconnectStatus\<close> then reports 10 attempts and \<open>reconnecting = false\<close>. In
  \<open>refused_reconnect_run\<close> the connection is lost and the one reconnect is refused.
  \<open>handleDisconnection\<close> and the \<open>catch\<close> of the reconnect timer both find
  \<open>isReconnecting\<close> still set, which nothing has lowered, so no second attempt is
  scheduled: \<open>scheduleReconnect\<close> returns at once, no reconnect timer is armed, and the
  report is 1 attempt of 10 and \<open>reconnecting = true\<close>. It stays so when the timers left
  over have fired, and in every run in which reconnection is not stopped the counter
  is at most 1 (\<open>retries_stall\<close>).
\<close>

theorem failed_reconnect_is_not_retried:
  "map_option (\<lambda>s. (getReconnectStatus s, timers s, scheduleReconnect s = s))
     (run decimal_platform refused_reconnect_run (init ''key'' ''secret''))
   = Some (\<lparr>attempts = 1, maxAttempts = 10, reconnecting = True\<rparr>,
           [(2, PongTimeout 0), (4, InitialBalance)], True)
   \<and> map_option (\<lambda>s. (getReconnectStatus s, timers s, scheduleReconnect s = s))
     (run decimal_platform (refused_reconnect_run @ [TimerFired 4 8200, TimerFired 2 13200])
        (init ''key'' ''secret''))
   = Some (\<lparr>attempts = 1, maxAttempts = 10, reconnecting = True\<rparr>, [], True)"
  by (simp add: refused_reconnect_run_def getReconnectStatus_def run_defs)

text \<open>
  C4 (the code departs from the claim). The claim gives the delay armed for each of the
  attempts 1 to 10. In \<open>timed_out_reconnect_run\<close> the first attempt is armed with 1000 ms,
  as claimed for k = 1 (timer 6). It times out, and the second attempt, for which the
  claim has 1500 ms, is not armed at all: when the connection timeout has fired no timer
  is left, the counter is 1 and the flag is up. The same holds for every further k: a
  reconnect timer armed in a run of the client is one of 1000 ms
  (\<open>only_first_delay_armed\<close>).
\<close>

theorem second_reconnect_is_never_armed:
  "map_option timers
     (run decimal_platform (take 3 timed_out_reconnect_run) (init ''key'' ''secret''))
   = Some [(2, PongTimeout 0), (4, InitialBalance), (6, ReconnectTimer 1000)]
   \<and> map_option (\<lambda>s. (timers s, reconnectAttempts s, isReconnecting s, map readyState (sockets s)))
     (run decimal_platform timed_out_reconnect_run (init ''key'' ''secret''))
   = Some ([], 1, True, [CLOSED, CONNECTING])"
  by (simp add: timed_out_reconnect_run_def run_defs)

text \<open>
  What \<open>scheduleReconnect\<close> would arm if it were called with the counter at k - 1 and the
  flag down, and the ten delays.
\<close>

lemma scheduleReconnect_delay:
  assumes "1 \<le> k" and "k \<le> maxReconnectAttempts"
    and "\<not> isReconnecting s" and "reconnectAttempts s = k - 1"
  shows "reconnectAttempts (scheduleReconnect s) = k
         \<and> isReconnecting (scheduleReconnect s)
         \<and> timers (scheduleReconnect s) =
             timers s @ [(nextTimer s, ReconnectTimer (min (1000 * 1.5 ^ (k - 1)) 30000))]
         \<and> reconnectInterval (scheduleReconnect s) = Some (nextTimer s)"
  using assms
  by (simp add: scheduleReconnect_def Let_def setTimer_def reconnectDelay_def
      maxReconnectDelay_def maxReconnectAttempts_def)

lemma reconnect_delays:
  "map (\<lambda>k. min (1000 * 1.5 ^ (k - 1)) (30000::real)) [1, 2, 3, 4, 5, 6, 7, 8, 9, 10]
   = [1000, 1500, 2250, 3375, 5062.5, 7593.75, 11390.625, 17085.9375, 25628.90625, 30000]"
  by (simp add: power_divide)

section \<open>A failed authentication\<close>

lemma exhausted_status:
  "exhausted s \<Longrightarrow>
   getReconnectStatus s = \<lparr>attempts = 10, maxAttempts = 10, reconnecting = False\<rparr>"
  by (simp add: exhausted_def getReconnectStatus_def maxReconnectAttempts_def)

lemma reachable_exhausted:
  assumes "run P es (init key secret) = Some s" and "reconnectAttempts s = maxReconnectAttempts"
  shows "exhausted s"
  using reconnect_ok_run [OF reconnect_ok_init assms(1)] assms(2)
  by (auto simp: reconnect_ok_def exhausted_def maxReconnectAttempts_def)

text \<open>
  While the counter is at its maximum and no socket opens, \<open>scheduleReconnect\<close> does
  nothing and no reconnect timer is armed.
\<close>

lemma stays_off_while_exhausted:
  assumes "exhausted s" and "\<forall>e \<in> set es. \<not> is_open e" and "run P es s = Some s'"
  shows "scheduleReconnect s' = s'
         \<and> reconnectTimers s' \<subseteq> reconnectTimers s
         \<and> getReconnectStatus s' = \<lparr>attempts = 10, maxAttempts = 10, reconnecting = False\<rparr>"
  using exhausted_run [OF assms] by (simp add: scheduleReconnect_exhausted exhausted_status)

text \<open>What \<open>handleMessage\<close> does with the acknowledgement of a failed authentication.\<close>

lemma handleMessage_auth_failure:
  assumes "auth_failure m" and "\<not> has_pending s m"
  shows "handleMessage P now now2 m s = stopReconnection (s\<lparr>isAuthenticated := False\<rparr>)"
  using assms by (auto simp: handleMessage_def auth_failure_def Let_def)

lemma stopReconnection_cancels:
  "reconnectInterval (stopReconnection s) = None"
  "reconnectInterval s = Some h \<Longrightarrow> h \<notin> fst ` set (timers (stopReconnection s))"
  "exhausted (stopReconnection s)"
  "isAuthenticated (stopReconnection s) = isAuthenticated s"
  by (auto simp: stopReconnection_def clearTimer_def Let_def exhausted_def split: option.splits)

text \<open>
  What the acknowledgement achieves: the client is unauthenticated, the timer whose
  handle \<open>reconnectInterval\<close> holds is cancelled, and the counter is at its maximum with
  the flag down, so that reconnection is off until a socket opens.
\<close>

lemma auth_failure_stops_reconnection:
  assumes "auth_failure m" and "\<not> has_pending s m"
  shows "\<not> isAuthenticated (handleMessage P now now2 m s)"
    and "reconnectInterval (handleMessage P now now2 m s) = None"
    and "reconnectInterval s = Some h \<Longrightarrow> h \<notin> fst ` set (timers (handleMessage P now now2 m s))"
    and "exhausted (handleMessage P now now2 m s)"
    and "isConnected (handleMessage P now now2 m s) = isConnected s"
proof -
  have eq: "handleMessage P now now2 m s = stopReconnection (s\<lparr>isAuthenticated := False\<rparr>)"
    using assms by (rule handleMessage_auth_failure)
  show "\<not> isAuthenticated (handleMessage P now now2 m s)"
    by (simp add: eq stopReconnection_cancels)
  show "reconnectInterval (handleMessage P now now2 m s) = None"
    by (simp add: eq stopReconnection_cancels)
  show "reconnectInterval s = Some h \<Longrightarrow> h \<notin> fst ` set (timers (handleMessage P now now2 m s))"
    using stopReconnection_cancels(2) [of "s\<lparr>isAuthenticated := False\<rparr>" h] by (simp add: eq)
  show "exhausted (handleMessage P now now2 m s)"
    by (simp add: eq stopReconnection_cancels)
  show "isConnected (handleMessage P now now2 m s) = isConnected s"
    by (simp add: eq stopReconnection_def clearTimer_def Let_def split: option.splits)
qed

text \<open>
  C3 (the code departs from the claim). The claim: after a subscribe acknowledgement
  with error code 1 no transport close or error schedules a connection attempt, for
  the rest of the session. \<open>handleMessage\<close> calls \<open>stopReconnection\<close>, which sets the
  counter to its maximum; the \<open>open\<close> handler sets it back to 0. In \<open>delayed_close_run\<close>
  socket 2 is still connecting when the acknowledgement arrives on socket 1 (at 30300,
  for the subscription sent at 29200). The counter is set to 10 and no reconnect timer
  is armed. Socket 2 opens at 30500; when it closes, \<open>handleDisconnection\<close> schedules a
  reconnect (timer 16).
\<close>

theorem auth_failure_then_open_reconnects:
  "map_option (\<lambda>s. (getReconnectStatus s, timers s))
     (run decimal_platform (delayed_close_run @ [SocketMessage 1 30300 30300 auth_failure_frame])
        (init ''key'' ''secret''))
   = Some (\<lparr>attempts = 10, maxAttempts = 10, reconnecting = False\<rparr>,
           [(9, PongTimeout 1), (14, ConnectionTimeout 2)])
   \<and> map_option (\<lambda>s. (getReconnectStatus s, timers s))
     (run decimal_platform
        (delayed_close_run @ [SocketMessage 1 30300 30300 auth_failure_frame,
                              SocketOpen 2 30500, SocketClose 2])
        (init ''key'' ''secret''))
   = Some (\<lparr>attempts = 1, maxAttempts = 10, reconnecting = True\<rparr>,
           [(9, PongTimeout 1), (15, SettleDelay 2), (16, ReconnectTimer 1000)])"
  by (simp add: delayed_close_run_def auth_failure_frame_def subscribed_frame_def pong_frame_def
      getReconnectStatus_def run_defs)

text \<open>
  C10 (the code departs from the claim). The claim: after a failed authentication
  \<open>getReconnectStatus\<close> reports 10 attempts and \<open>reconnecting = false\<close> from then on, also
  when no reconnect was attempted, so that the caller cannot tell it from retries that
  have run out. In \<open>auth_failure_run\<close> the report is 0 attempts before the
  acknowledgement and 10 after it, as claimed. But retries do not run out into that
  report: after the refused reconnect of \<open>refused_reconnect_run\<close> the client reports 1
  attempt and \<open>reconnecting = true\<close> and makes no further attempt (\<open>retries_stall\<close>), so
  the caller does tell the two apart. Nor does the report last: in
  \<open>delayed_close_run\<close> socket 2 opens after the acknowledgement has arrived on socket 1,
  and the report is back at 0 attempts.
\<close>

theorem status_tells_auth_failure_from_failed_retry:
  "map_option getReconnectStatus
     (run decimal_platform (take 4 auth_failure_run) (init ''key'' ''secret''))
   = Some \<lparr>attempts = 0, maxAttempts = 10, reconnecting = False\<rparr>
   \<and> map_option getReconnectStatus
     (run decimal_platform auth_failure_run (init ''key'' ''secret''))
   = Some \<lparr>attempts = 10, maxAttempts = 10, reconnecting = False\<rparr>
   \<and> map_option getReconnectStatus
     (run decimal_platform refused_reconnect_run (init ''key'' ''secret''))
   = Some \<lparr>attempts = 1, maxAttempts = 10, reconnecting = True\<rparr>
   \<and> map_option getReconnectStatus
     (run decimal_platform
        (delayed_close_run @ [SocketMessage 1 30300 30300 auth_failure_frame, SocketOpen 2 30500])
        (init ''key'' ''secret''))
   = Some \<lparr>attempts = 0, maxAttempts = 10, reconnecting = False\<rparr>"
  by (simp add: auth_failure_run_def refused_reconnect_run_def delayed_close_run_def
      auth_failure_frame_def subscribed_frame_def pong_frame_def getReconnectStatus_def run_defs)

section \<open>Responses are matched by id\<close>

lemma correlates_handleMessage: "correlates (handleMessage P)"
  unfolding correlates_def by (simp add: handleMessage_matched)

lemma correlates_handleMessage_pingpong: "correlates handleMessage_pingpong"
  unfolding correlates_def
  by (simp add: handleMessage_pingpong_matched handleMessage_pingpong_unmatched)

lemma deliver_completions:
  assumes "correlates h"
  shows "\<exists>new. completions (deliver h ms s) = completions s @ new
           \<and> (\<forall>c \<in> set new. \<exists>(now, now2, m) \<in> set ms. \<exists>i p.
                 f_id m = Some i \<and> map_of (pendingRequests s) i = Some p
                 \<and> c = (waiter p, reply now now2 m p))"
proof (induction ms arbitrary: s)
  case Nil
  show ?case by simp
next
  case (Cons x ms)
  obtain now now2 m where x: "x = (now, now2, m)" by (cases x) auto
  let ?s1 = "h now now2 m s"
  obtain new1 where new1: "completions (deliver h ms ?s1) = completions ?s1 @ new1"
    and from1: "\<forall>c \<in> set new1. \<exists>(now, now2, m) \<in> set ms. \<exists>i p.
                 f_id m = Some i \<and> map_of (pendingRequests ?s1) i = Some p
                 \<and> c = (waiter p, reply now now2 m p)"
    using Cons.IH [of ?s1] by blast
  show ?case
  proof (cases "has_pending s m")
    case True
    then obtain i p where ip: "f_id m = Some i" "i \<noteq> 0" "map_of (pendingRequests s) i = Some p"
      using has_pending_lookup by blast
    with assms have s1: "?s1 = s\<lparr>completions := completions s @ [(waiter p, reply now now2 m p)],
              pendingRequests := AList.delete i (pendingRequests s)\<rparr>"
      unfolding correlates_def by blast
    have sub: "\<And>j q. map_of (pendingRequests ?s1) j = Some q \<Longrightarrow> map_of (pendingRequests s) j = Some q"
      by (simp add: s1 AList.delete_conv' split: if_splits)
    have "completions (deliver h (x # ms) s)
            = completions s @ ((waiter p, reply now now2 m p) # new1)"
      using new1 by (simp add: x s1)
    moreover have "\<forall>c \<in> set ((waiter p, reply now now2 m p) # new1).
        \<exists>(now, now2, m) \<in> set (x # ms). \<exists>i p.
          f_id m = Some i \<and> map_of (pendingRequests s) i = Some p
          \<and> c = (waiter p, reply now now2 m p)"
    proof
      fix c assume "c \<in> set ((waiter p, reply now now2 m p) # new1)"
      then consider "c = (waiter p, reply now now2 m p)" | "c \<in> set new1" by auto
      then show "\<exists>(now, now2, m) \<in> set (x # ms). \<exists>i p.
          f_id m = Some i \<and> map_of (pendingRequests s) i = Some p
          \<and> c = (waiter p, reply now now2 m p)"
      proof cases
        case 1
        then show ?thesis using ip x by auto
      next
        case 2
        with from1 obtain now' now2' m' i' p' where
          "(now', now2', m') \<in> set ms" "f_id m' = Some i'"
          "map_of (pendingRequests ?s1) i' = Some p'" "c = (waiter p', reply now' now2' m' p')"
          by blast
        then show ?thesis using sub by fastforce
      qed
    qed
    ultimately show ?thesis by blast
  next
    case False
    with assms have same: "pendingRequests ?s1 = pendingRequests s" "completions ?s1 = completions s"
      unfolding correlates_def by blast+
    have "completions (deliver h (x # ms) s) = completions s @ new1"
      using new1 by (simp add: x same)
    moreover have "\<forall>c \<in> set new1.
        \<exists>(now, now2, m) \<in> set (x # ms). \<exists>i p.
          f_id m = Some i \<and> map_of (pendingRequests s) i = Some p
          \<and> c = (waiter p, reply now now2 m p)"
      using from1 by (fastforce simp: same)
    ultimately show ?thesis by blast
  qed
qed

text \<open>
  C5, as amended. For both message handlers: a frame whose id (not 0) is a key of the
  table completes exactly the waiter registered under that id, and the entry is
  removed while every other entry stays. What the waiter gets is \<open>reply\<close>: when the
  frame's result is \<open>"pong"\<close> it is resolved with latency and timestamp, whether or not
  the frame carries an error object; otherwise it is resolved with the frame's result
  when the frame has no error object, and rejected with \<open>API Error:\<close> and the
  exchange's message when it has one. For frames handled in any order, every completion
  made goes to the waiter the table held under the id of one of the frames and is the
  reply to that frame: no waiter is completed with the response to another id.
\<close>

theorem response_completes_its_own_waiter:
  assumes "h = handleMessage P \<or> h = handleMessage_pingpong"
    and "f_id m = Some i" and "i \<noteq> 0" and "map_of (pendingRequests s) i = Some p"
  shows "completions (h now now2 m s) = completions s @ [(waiter p, reply now now2 m p)]
         \<and> map_of (pendingRequests (h now now2 m s)) i = None
         \<and> (\<forall>j. j \<noteq> i \<longrightarrow> map_of (pendingRequests (h now now2 m s)) j = map_of (pendingRequests s) j)
         \<and> (f_result m = Str ''pong'' \<longrightarrow>
              reply now now2 m p = Resolved (Latency (now - timestamp p) now2))
         \<and> (f_result m \<noteq> Str ''pong'' \<longrightarrow> f_error m = None \<longrightarrow>
              reply now now2 m p = Resolved (Result (f_result m)))
         \<and> (\<forall>e. f_result m \<noteq> Str ''pong'' \<longrightarrow> f_error m = Some e \<longrightarrow>
              reply now now2 m p =
                Rejected (''API Error: '' @ (case err_message e of None \<Rightarrow> ''undefined'' | Some t \<Rightarrow> t)))
         \<and> (\<exists>new. completions (deliver h ms s) = completions s @ new
               \<and> (\<forall>c \<in> set new. \<exists>(now, now2, m) \<in> set ms. \<exists>i p.
                     f_id m = Some i \<and> map_of (pendingRequests s) i = Some p
                     \<and> c = (waiter p, reply now now2 m p)))"
proof -
  have c: "correlates h"
    using assms(1) correlates_handleMessage correlates_handleMessage_pingpong by auto
  then have eq: "h now now2 m s =
            s\<lparr>completions := completions s @ [(waiter p, reply now now2 m p)],
              pendingRequests := AList.delete i (pendingRequests s)\<rparr>"
    using assms(2-4) unfolding correlates_def by blast
  have 1: "completions (h now now2 m s) = completions s @ [(waiter p, reply now now2 m p)]"
    by (simp add: eq)
  have 2: "map_of (pendingRequests (h now now2 m s)) i = None"
    by (simp add: eq AList.delete_conv')
  have 3: "\<forall>j. j \<noteq> i \<longrightarrow> map_of (pendingRequests (h now now2 m s)) j = map_of (pendingRequests s) j"
    by (simp add: eq AList.delete_conv')
  have 4: "f_result m = Str ''pong'' \<longrightarrow>
              reply now now2 m p = Resolved (Latency (now - timestamp p) now2)"
    by (simp add: reply_def)
  have 5: "f_result m \<noteq> Str ''pong'' \<longrightarrow> f_error m = None \<longrightarrow>
              reply now now2 m p = Resolved (Result (f_result m))"
    by (simp add: reply_def)
  have 6: "\<forall>e. f_result m \<noteq> Str ''pong'' \<longrightarrow> f_error m = Some e \<longrightarrow>
              reply now now2 m p =
                Rejected (''API Error: '' @ (case err_message e of None \<Rightarrow> ''undefined'' | Some t \<Rightarrow> t))"
    by (simp add: reply_def api_error_text_def)
  from 1 2 3 4 5 6 deliver_completions [OF c, of ms s] show ?thesis by blast
qed

text \<open>The state after the first ping: id 1 is pending for waiter 0.\<close>

lemma ping_pending:
  "run decimal_platform [SocketOpen 0 1000, TimerFired 1 4000] (init ''key'' ''secret'')
   = Some (timerFired decimal_platform 1 4000 (onOpen 0 1000 (init ''key'' ''secret'')))"
  "pendingRequests (timerFired decimal_platform 1 4000 (onOpen 0 1000 (init ''key'' ''secret'')))
   = [(1, \<lparr>waiter = 0, timestamp = 4000\<rparr>)]"
  "completions (timerFired decimal_platform 1 4000 (onOpen 0 1000 (init ''key'' ''secret''))) = []"
  by (simp_all add: run_defs)

theorem response_completes_its_own_waiter_witness:
  "f_id \<lparr>f_id = Some 1, f_method = None, f_result = Opaque ''{}'', f_error = None,
         f_channel = None, f_event = None\<rparr> = Some 1
   \<and> (1::nat) \<noteq> 0
   \<and> map_of (pendingRequests (timerFired decimal_platform 1 4000 (onOpen 0 1000 (init ''key'' ''secret'')))) 1
       = Some \<lparr>waiter = 0, timestamp = 4000\<rparr>
   \<and> completions (handleMessage decimal_platform 4050 4051
         \<lparr>f_id = Some 1, f_method = None, f_result = Opaque ''{}'', f_error = None,
          f_channel = None, f_event = None\<rparr>
         (timerFired decimal_platform 1 4000 (onOpen 0 1000 (init ''key'' ''secret''))))
       = [(0, Resolved (Result (Opaque ''{}'')))]
   \<and> map_of (pendingRequests (handleMessage decimal_platform 4050 4051
         \<lparr>f_id = Some 1, f_method = None, f_result = Opaque ''{}'', f_error = None,
          f_channel = None, f_event = None\<rparr>
         (timerFired decimal_platform 1 4000 (onOpen 0 1000 (init ''key'' ''secret''))))) 1 = None"
proof -
  let ?s = "timerFired decimal_platform 1 4000 (onOpen 0 1000 (init ''key'' ''secret''))"
  let ?m = "\<lparr>f_id = Some 1, f_method = None, f_result = Opaque ''{}'', f_error = None,
         f_channel = None, f_event = None\<rparr>"
  have 1: "handleMessage decimal_platform = handleMessage decimal_platform
           \<or> handleMessage decimal_platform = handleMessage_pingpong" by simp
  have 2: "f_id ?m = Some 1" by simp
  have 3: "(1::nat) \<noteq> 0" by simp
  have 4: "map_of (pendingRequests ?s) 1 = Some \<lparr>waiter = 0, timestamp = 4000\<rparr>"
    using ping_pending(2) by simp
  from response_completes_its_own_waiter [OF 1 2 3 4, of 4050 4051 "[]"] 2 3 4 ping_pending(3)
  show ?thesis by (simp add: reply_def)
qed

text \<open>
  The claim as stated fails on a frame whose result is \<open>"pong"\<close>: the waiter of ping 1 is
  resolved with \<open>{latency: 50, timestamp: 4050}\<close>, not with the frame's result, and it
  is resolved, not rejected, when the frame carries an error object as well.
\<close>

theorem pong_is_not_resolved_with_its_result:
  "map_option completions
     (run decimal_platform
        [SocketOpen 0 1000, TimerFired 1 4000, SocketMessage 0 4050 4050 (pong_frame 1)]
        (init ''key'' ''secret''))
   = Some [(0, Resolved (Latency 50 4050))]
   \<and> f_result (pong_frame 1) = Str ''pong''
   \<and> map_option completions
     (run decimal_platform
        [SocketOpen 0 1000, TimerFired 1 4000,
         SocketMessage 0 4050 4050
           ((pong_frame 1)\<lparr>f_error := Some \<lparr>err_code = Some 2, err_message = Some ''busy''\<rparr>\<rparr>)]
        (init ''key'' ''secret''))
   = Some [(0, Resolved (Latency 50 4050))]"
  by (simp add: pong_frame_def run_defs)

section \<open>The latency of a ping\<close>

text \<open>A ping that \<open>ws.send\<close> accepts is entered under the current id with the clock reading.\<close>

lemma sendPing_registers:
  assumes "isConnected s" and "ws s = Some k" and "ws_send s k \<noteq> Thrown"
  shows "map_of (pendingRequests (sendPing T s)) (requestId s)
           = Some \<lparr>waiter = nextWaiter s, timestamp = T\<rparr>"
    and "completions (sendPing T s) = completions s"
  using assms by (simp_all add: sendPing_def Let_def AList.update_conv' split: sent.splits)

text \<open>
  C7, as amended. A ping issued at clock reading T, answered by a frame with its id and
  the result \<open>"pong"\<close> that is handled at clock reading T + L, resolves its waiter with
  latency exactly L, in both clients. The latency is the difference of two readings of
  \<open>Date.now()\<close> and is not clamped: it is non-negative exactly when the second reading
  is not earlier than the first.
\<close>

theorem pong_reports_clock_difference:
  assumes "isConnected s" and "ws s = Some k" and "ws_send s k \<noteq> Thrown"
    and "requestId s \<noteq> 0"
    and "f_id m = Some (requestId s)" and "f_result m = Str ''pong''"
  shows "completions (handleMessage P (T + L) now2 m (sendPing T s))
           = completions s @ [(nextWaiter s, Resolved (Latency L now2))]
         \<and> completions (handleMessage_pingpong (T + L) now2 m (sendPing T s))
           = completions s @ [(nextWaiter s, Resolved (Latency L now2))]
         \<and> (0 \<le> L \<longleftrightarrow> T \<le> T + L)"
proof -
  let ?p = "\<lparr>waiter = nextWaiter s, timestamp = T\<rparr>"
  have reg: "map_of (pendingRequests (sendPing T s)) (requestId s) = Some ?p"
    using assms(1-3) by (rule sendPing_registers)
  have same: "completions (sendPing T s) = completions s"
    using assms(1-3) by (rule sendPing_registers)
  have r: "reply (T + L) now2 m ?p = Resolved (Latency L now2)"
    using assms(6) by (simp add: reply_def)
  have "completions (handleMessage P (T + L) now2 m (sendPing T s))
           = completions s @ [(nextWaiter s, Resolved (Latency L now2))]"
    using handleMessage_matched [OF assms(5) assms(4) reg, of P "T + L" now2] r same by simp
  moreover have "completions (handleMessage_pingpong (T + L) now2 m (sendPing T s))
           = completions s @ [(nextWaiter s, Resolved (Latency L now2))]"
    using handleMessage_pingpong_matched [OF assms(5) assms(4) reg, of "T + L" now2] r same by simp
  ultimately show ?thesis by simp
qed

theorem pong_reports_clock_difference_witness:
  "isConnected (onOpen 0 1000 (init ''key'' ''secret'') :: rat option client)
   \<and> ws (onOpen 0 1000 (init ''key'' ''secret'') :: rat option client) = Some 0
   \<and> ws_send (onOpen 0 1000 (init ''key'' ''secret'') :: rat option client) 0 \<noteq> Thrown
   \<and> requestId (onOpen 0 1000 (init ''key'' ''secret'') :: rat option client) \<noteq> 0
   \<and> f_id (pong_frame 1) = Some (requestId (onOpen 0 1000 (init ''key'' ''secret'') :: rat option client))
   \<and> f_result (pong_frame 1) = Str ''pong''
   \<and> completions (handleMessage decimal_platform (4000 + 50) 4051 (pong_frame 1)
         (sendPing 4000 (onOpen 0 1000 (init ''key'' ''secret''))))
       = [(0, Resolved (Latency 50 4051))]"
proof -
  let ?s = "onOpen 0 1000 (init ''key'' ''secret'') :: rat option client"
  have 1: "isConnected ?s" by (simp add: run_defs)
  have 2: "ws ?s = Some 0" by (simp add: run_defs)
  have 3: "ws_send ?s 0 \<noteq> Thrown" by (simp add: run_defs)
  have 4: "requestId ?s \<noteq> 0" by (simp add: run_defs)
  have 5: "f_id (pong_frame 1) = Some (requestId ?s)" by (simp add: pong_frame_def run_defs)
  have 6: "f_result (pong_frame 1) = Str ''pong''" by (simp add: pong_frame_def)
  have 7: "nextWaiter ?s = 0" "completions ?s = []" by (simp_all add: run_defs)
  from pong_reports_clock_difference [OF 1 2 3 4 5 6, of decimal_platform 4000 50 4051]
    1 2 3 4 5 6 7
  show ?thesis by simp
qed

text \<open>
  The claim as stated fails on "never negative": the ping is issued at reading 4000
  and the pong is handled at reading 3900 (the wall clock was set back in between);
  the waiter is resolved with latency -100.
\<close>

theorem pong_latency_negative_when_clock_steps_back:
  "map_option completions
     (run decimal_platform
        [SocketOpen 0 1000, TimerFired 1 4000, SocketMessage 0 3900 3900 (pong_frame 1)]
        (init ''key'' ''secret''))
   = Some [(0, Resolved (Latency (- 100) 3900))]"
  by (simp add: pong_frame_def run_defs)

section \<open>The signature of a subscription\<close>

lemma hex_digit_lower: "n < 16 \<Longrightarrow> ''0123456789abcdef'' ! n \<in> set ''0123456789abcdef''"
  by (rule nth_mem) simp

lemma hex_byte_lower: "set (hex_byte b) \<subseteq> set ''0123456789abcdef''"
proof -
  have two: "set [x, y] \<subseteq> S" if "x \<in> S" "y \<in> S" for x y :: char and S
    using that by simp
  have hi: "unat b div 16 < 16"
    using unsigned_less [of b, where 'a = nat] by (simp add: less_mult_imp_div_less)
  have lo: "unat b mod 16 < 16" by simp
  show ?thesis
    unfolding hex_byte_def by (rule two) (rule hex_digit_lower, rule hi, rule hex_digit_lower, rule lo)
qed

lemma hex_lower: "set (hex bs) \<subseteq> set ''0123456789abcdef''"
  using hex_byte_lower by (auto simp: hex_def simp del: set_simps)

lemma length_hex: "length (hex bs) = 2 * length bs"
  by (induction bs) (simp_all add: hex_def hex_byte_def)

text \<open>
  C8. For every channel, event, timestamp and secret, \<open>generateSignature\<close> is the
  lower-case hexadecimal encoding (two digits a byte) of the HMAC-SHA512, keyed by the
  secret, of exactly \<open>channel=<channel>&event=<event>&time=<timestamp>\<close>, the timestamp in
  decimal; it is a function of these inputs and of nothing else. When
  \<open>subscribeToBalances\<close> transmits, the frame carries that signature for
  \<open>spot.balances\<close>, \<open>subscribe\<close> and the clock reading in whole seconds as \<open>SIGN\<close>,
  the public key as \<open>KEY\<close>, and the same seconds as \<open>time\<close>. HMAC-SHA512 itself is
  the platform's (\<open>crypto.createHmac\<close>).
\<close>

theorem subscription_signature:
  assumes "isConnected s" and "ws s = Some k" and "ws_send s k = Transmitted"
  shows "generateSignature P secret chan ev ts
           = hex (hmac_sha512 P secret (''channel='' @ chan @ ''&event='' @ ev @ ''&time='' @ show_int ts))
         \<and> set (generateSignature P secret chan ev ts) \<subseteq> set ''0123456789abcdef''
         \<and> length (generateSignature P secret chan ev ts)
             = 2 * length (hmac_sha512 P secret (signing_string chan ev ts))
         \<and> signing_string ''spot.balances'' ''subscribe'' 1700000000
             = ''channel=spot.balances&event=subscribe&time=1700000000''
         \<and> outbox (subscribeToBalances P now s) = outbox s @
             [(k, SubscribeFrame
                \<lparr>sub_time = now div 1000, sub_channel = ''spot.balances'', sub_event = ''subscribe'',
                 auth_method = ''api_key'', auth_KEY = apiKey s,
                 auth_SIGN = generateSignature P (apiSecret s) ''spot.balances'' ''subscribe''
                               (now div 1000)\<rparr>)]"
proof -
  have "signing_string ''spot.balances'' ''subscribe'' 1700000000
             = ''channel=spot.balances&event=subscribe&time=1700000000''"
    by (simp add: signing_string_def show_int_def dec.simps)
  moreover have "outbox (subscribeToBalances P now s) = outbox s @
             [(k, SubscribeFrame
                \<lparr>sub_time = now div 1000, sub_channel = ''spot.balances'', sub_event = ''subscribe'',
                 auth_method = ''api_key'', auth_KEY = apiKey s,
                 auth_SIGN = generateSignature P (apiSecret s) ''spot.balances'' ''subscribe''
                               (now div 1000)\<rparr>)]"
    using assms by (simp add: subscribeToBalances_def balanceMessage_def)
  ultimately show ?thesis
    by (simp add: generateSignature_def signing_string_def hex_lower length_hex
        del: set_simps)
qed

theorem subscription_signature_witness:
  "isConnected (onOpen 0 1000 (init ''key'' ''secret'') :: rat option client)
   \<and> ws (onOpen 0 1000 (init ''key'' ''secret'') :: rat option client) = Some 0
   \<and> ws_send (onOpen 0 1000 (init ''key'' ''secret'') :: rat option client) 0 = Transmitted
   \<and> outbox (subscribeToBalances decimal_platform 1700000000123
               (onOpen 0 1000 (init ''key'' ''secret'')))
       = [(0, SubscribeFrame
                \<lparr>sub_time = 1700000000, sub_channel = ''spot.balances'', sub_event = ''subscribe'',
                 auth_method = ''api_key'', auth_KEY = ''key'',
                 auth_SIGN = hex (hmac_sha512 decimal_platform ''secret''
                    ''channel=spot.balances&event=subscribe&time=1700000000'')\<rparr>)]"
proof -
  let ?s = "onOpen 0 1000 (init ''key'' ''secret'') :: rat option client"
  have 1: "isConnected ?s" by (simp add: run_defs)
  have 2: "ws ?s = Some 0" by (simp add: run_defs)
  have 3: "ws_send ?s 0 = Transmitted" by (simp add: run_defs)
  have 4: "outbox ?s = []" "apiKey ?s = ''key''" "apiSecret ?s = ''secret''"
    by (simp_all add: run_defs)
  have 5: "(1700000000123::int) div 1000 = 1700000000" by simp
  from subscription_signature [OF 1 2 3, of decimal_platform "''secret''" "''spot.balances''"
      "''subscribe''" 1700000000 1700000000123] 1 2 3 4 5
  show ?thesis by (simp add: show_int_def dec.simps del: set_simps)
qed

section \<open>Balance updates\<close>

lemma find_usdt_first:
  assumes "\<forall>item \<in> set pre. currency item \<noteq> Text ''USDT''" and "currency u = Text ''USDT''"
  shows "find_usdt (map Some pre @ Some u # post) = Inr (Some u)"
  using assms by (induction pre) auto

lemma find_usdt_none:
  "\<forall>item \<in> set xs. currency item \<noteq> Text ''USDT'' \<Longrightarrow> find_usdt (map Some xs) = Inr None"
  by (induction xs) auto

lemma find_usdt_null:
  "\<forall>item \<in> set pre. currency item \<noteq> Text ''USDT'' \<Longrightarrow>
   find_usdt (map Some pre @ None # post) = Inl TypeError"
  by (induction pre) auto

lemma currencies_all: "currencies (map Some xs) = Inr (map currency xs)"
  by (induction xs) auto

lemma or_zero_string: "a \<noteq> [] \<Longrightarrow> or_zero (Text a) = a"
  by (simp add: or_zero_def)

lemma decimal_fixture:
  "parse_decimal ''10.5'' = Some (21 / 2)"
  "parse_decimal ''2.25'' = Some (9 / 4)"
  "parse_decimal ''0.0000004'' = Some (1 / 2500000)"
  "parse_decimal ''0'' = Some 0"
  by (simp_all add: parse_decimal_def unsigned_decimal_def digit_of_def digits_val_def Let_def)

lemma six_zeros: "replicate 6 c = [c, c, c, c, c, c]"
  by (simp add: numeral_eq_Suc)

lemma fixed_decimal_6:
  assumes "nat \<lfloor>\<bar>x\<bar> * 10 ^ 6 + 1 / 2\<rfloor> = n" and "0 \<le> x"
  shows "fixed_decimal (Some x) 6 =
           take (length (replicate (7 - length (dec n)) CHR ''0'' @ dec n) - 6)
             (replicate (7 - length (dec n)) CHR ''0'' @ dec n)
           @ ''.'' @
           drop (length (replicate (7 - length (dec n)) CHR ''0'' @ dec n) - 6)
             (replicate (7 - length (dec n)) CHR ''0'' @ dec n)"
  using assms by (simp add: fixed_decimal_def Let_def)

lemma fixed_fixture:
  "fixed_decimal (Some (21 / 2)) 6 = ''10.500000''"
  "fixed_decimal (Some (9 / 4)) 6 = ''2.250000''"
  "fixed_decimal (Some (51 / 4)) 6 = ''12.750000''"
  "fixed_decimal (Some (1 / 2500000)) 6 = ''0.000000''"
  "fixed_decimal (Some 0) 6 = ''0.000000''"
proof -
  have a: "nat \<lfloor>\<bar>21 / 2 :: rat\<bar> * 10 ^ 6 + 1 / 2\<rfloor> = 10500000"
  proof -
    have "\<lfloor>\<bar>21 / 2 :: rat\<bar> * 10 ^ 6 + 1 / 2\<rfloor> = 10500000" by (rule floor_unique) simp_all
    then show ?thesis by simp
  qed
  have b: "nat \<lfloor>\<bar>9 / 4 :: rat\<bar> * 10 ^ 6 + 1 / 2\<rfloor> = 2250000"
  proof -
    have "\<lfloor>\<bar>9 / 4 :: rat\<bar> * 10 ^ 6 + 1 / 2\<rfloor> = 2250000" by (rule floor_unique) simp_all
    then show ?thesis by simp
  qed
  have c: "nat \<lfloor>\<bar>51 / 4 :: rat\<bar> * 10 ^ 6 + 1 / 2\<rfloor> = 12750000"
  proof -
    have "\<lfloor>\<bar>51 / 4 :: rat\<bar> * 10 ^ 6 + 1 / 2\<rfloor> = 12750000" by (rule floor_unique) simp_all
    then show ?thesis by simp
  qed
  have d: "nat \<lfloor>\<bar>1 / 2500000 :: rat\<bar> * 10 ^ 6 + 1 / 2\<rfloor> = 0"
  proof -
    have "\<lfloor>\<bar>1 / 2500000 :: rat\<bar> * 10 ^ 6 + 1 / 2\<rfloor> = 0" by (rule floor_unique) simp_all
    then show ?thesis by simp
  qed
  have e: "nat \<lfloor>\<bar>0 :: rat\<bar> * 10 ^ 6 + 1 / 2\<rfloor> = 0"
  proof -
    have "\<lfloor>\<bar>0 :: rat\<bar> * 10 ^ 6 + 1 / 2\<rfloor> = 0" by (rule floor_unique) simp_all
    then show ?thesis by simp
  qed
  have digits: "dec 10500000 = ''10500000''" "dec 2250000 = ''2250000''"
    "dec 12750000 = ''12750000''" "dec 0 = ''0''"
    by (simp_all add: dec.simps)
  show "fixed_decimal (Some (21 / 2)) 6 = ''10.500000''"
    by (simp add: fixed_decimal_6 [OF a] digits)
  show "fixed_decimal (Some (9 / 4)) 6 = ''2.250000''"
    by (simp add: fixed_decimal_6 [OF b] digits)
  show "fixed_decimal (Some (51 / 4)) 6 = ''12.750000''"
    by (simp add: fixed_decimal_6 [OF c] digits)
  show "fixed_decimal (Some (1 / 2500000)) 6 = ''0.000000''"
    by (simp add: fixed_decimal_6 [OF d] digits six_zeros)
  show "fixed_decimal (Some 0) 6 = ''0.000000''"
    by (simp add: fixed_decimal_6 [OF e] digits six_zeros)
qed

text \<open>
  C9, as amended. For every balance array in which an entry with the currency \<open>"USDT"\<close>
  is preceded by no \<open>null\<close> element, the handler reports, for the first such entry,
  \<open>parseFloat\<close> of its \<open>available\<close> and of its \<open>locked\<close> member (of \<open>"0"\<close> where the member is
  missing or empty) and their sum as total, each as \<open>toFixed(6)\<close> prints it; on the
  fixture \<open>[{"currency":"USDT","available":"10.5","locked":"2.25"}]\<close> these are
  \<open>10.500000\<close>, \<open>2.250000\<close> and \<open>12.750000\<close>. For every array of elements other than
  \<open>null\<close> without such an entry it reports "not found" with the currencies present, a
  line of \<open>console.log\<close> like the others. Where \<open>null\<close> comes before any USDT entry the
  \<open>catch\<close> of the handler logs a processing error and nothing else is reported. In
  every case a balance update (a frame whose id matches no pending request) changes
  nothing of the client but the console.
\<close>

theorem balance_update_reports_usdt:
  assumes "\<forall>item \<in> set pre. currency item \<noteq> Text ''USDT''"
    and "currency u = Text ''USDT''"
    and "\<forall>item \<in> set others. currency item \<noteq> Text ''USDT''"
    and "\<not> has_pending s m" and "f_channel m = Some ''spot.balances''" and "f_event m = Some ''update''"
  shows "handleBalanceUpdate P (Balances (map Some pre @ Some u # post))
           = UsdtBalance (toFixed P (parseFloat P (or_zero (available u))) 6)
               (toFixed P (parseFloat P (or_zero (locked u))) 6)
               (toFixed P (float_add P (parseFloat P (or_zero (available u)))
                             (parseFloat P (or_zero (locked u)))) 6)
               (truthy (change_type u))
         \<and> (\<forall>a. a \<noteq> [] \<longrightarrow> or_zero (Text a) = a)
         \<and> handleBalanceUpdate decimal_platform
             (Balances [Some \<lparr>currency = Text ''USDT'', available = Text ''10.5'',
                               locked = Text ''2.25'', change_type = Missing\<rparr>])
           = UsdtBalance ''10.500000'' ''2.250000'' ''12.750000'' None
         \<and> handleBalanceUpdate P (Balances (map Some others))
           = UsdtNotFound (join (map (\<lambda>item. shown (currency item)) others))
         \<and> handleBalanceUpdate P (Balances (map Some pre @ None # post)) = ProcessingError
         \<and> handleMessage P now now2 m s = s\<lparr>console := console s @ [handleBalanceUpdate P (f_result m)]\<rparr>"
proof -
  have 1: "handleBalanceUpdate P (Balances (map Some pre @ Some u # post))
           = UsdtBalance (toFixed P (parseFloat P (or_zero (available u))) 6)
               (toFixed P (parseFloat P (or_zero (locked u))) 6)
               (toFixed P (float_add P (parseFloat P (or_zero (available u)))
                             (parseFloat P (or_zero (locked u)))) 6)
               (truthy (change_type u))"
    using find_usdt_first [OF assms(1,2), of post]
    by (simp add: handleBalanceUpdate_def Let_def)
  have 2: "handleBalanceUpdate decimal_platform
             (Balances [Some \<lparr>currency = Text ''USDT'', available = Text ''10.5'',
                               locked = Text ''2.25'', change_type = Missing\<rparr>])
           = UsdtBalance ''10.500000'' ''2.250000'' ''12.750000'' None"
    by (simp add: handleBalanceUpdate_def decimal_platform_def decimal_fixture fixed_fixture
        or_zero_def truthy_def nan_add_def Let_def)
  have 3: "handleBalanceUpdate P (Balances (map Some others))
           = UsdtNotFound (join (map (\<lambda>item. shown (currency item)) others))"
    using find_usdt_none [OF assms(3)]
    by (simp add: handleBalanceUpdate_def currencies_all comp_def)
  have 4: "handleBalanceUpdate P (Balances (map Some pre @ None # post)) = ProcessingError"
    using find_usdt_null [OF assms(1), of post] by (simp add: handleBalanceUpdate_def)
  have 5: "handleMessage P now now2 m s = s\<lparr>console := console s @ [handleBalanceUpdate P (f_result m)]\<rparr>"
    using assms(4-6) by (simp add: handleMessage_def)
  from 1 2 3 4 5 or_zero_string show ?thesis by blast
qed

theorem balance_update_reports_usdt_witness:
  "currency \<lparr>currency = Text ''BTC'', available = Text ''0.5'', locked = Text ''0'',
             change_type = Missing\<rparr> \<noteq> Text ''USDT''
   \<and> currency \<lparr>currency = Text ''USDT'', available = Text ''10.5'', locked = Text ''2.25'',
               change_type = Text ''order-create''\<rparr> = Text ''USDT''
   \<and> \<not> has_pending (init ''key'' ''secret'' :: rat option client)
         \<lparr>f_id = None, f_method = None,
          f_result = Balances [Some \<lparr>currency = Text ''BTC'', available = Text ''0.5'',
                                       locked = Text ''0'', change_type = Missing\<rparr>],
          f_error = None, f_channel = Some ''spot.balances'', f_event = Some ''update''\<rparr>
   \<and> handleBalanceUpdate decimal_platform
         (Balances [Some \<lparr>currency = Text ''BTC'', available = Text ''0.5'', locked = Text ''0'',
                           change_type = Missing\<rparr>,
                    Some \<lparr>currency = Text ''USDT'', available = Text ''10.5'', locked = Text ''2.25'',
                           change_type = Text ''order-create''\<rparr>,
                    None])
       = UsdtBalance ''10.500000'' ''2.250000'' ''12.750000'' (Some ''order-create'')
   \<and> handleBalanceUpdate decimal_platform
         (Balances [Some \<lparr>currency = Text ''BTC'', available = Text ''0.5'', locked = Text ''0'',
                           change_type = Missing\<rparr>])
       = UsdtNotFound ''BTC''
   \<and> handleBalanceUpdate decimal_platform
         (Balances [Some \<lparr>currency = Text ''BTC'', available = Text ''0.5'', locked = Text ''0'',
                           change_type = Missing\<rparr>,
                    None, None])
       = ProcessingError
   \<and> handleMessage decimal_platform 5000 5000
         \<lparr>f_id = None, f_method = None,
          f_result = Balances [Some \<lparr>currency = Text ''BTC'', available = Text ''0.5'',
                                       locked = Text ''0'', change_type = Missing\<rparr>],
          f_error = None, f_channel = Some ''spot.balances'', f_event = Some ''update''\<rparr>
         (init ''key'' ''secret'')
       = (init ''key'' ''secret'')\<lparr>console := [UsdtNotFound ''BTC'']\<rparr>"
proof -
  let ?btc = "\<lparr>currency = Text ''BTC'', available = Text ''0.5'', locked = Text ''0'',
             change_type = Missing\<rparr>"
  let ?usdt = "\<lparr>currency = Text ''USDT'', available = Text ''10.5'', locked = Text ''2.25'',
               change_type = Text ''order-create''\<rparr>"
  let ?m = "\<lparr>f_id = None, f_method = None, f_result = Balances [Some ?btc],
          f_error = None, f_channel = Some ''spot.balances'', f_event = Some ''update''\<rparr>"
  let ?s = "init ''key'' ''secret'' :: rat option client"
  have 1: "\<forall>item \<in> set [?btc]. currency item \<noteq> Text ''USDT''" by simp
  have 2: "currency ?usdt = Text ''USDT''" by simp
  have 4: "\<not> has_pending ?s ?m" by (simp add: has_pending_def)
  have 5: "f_channel ?m = Some ''spot.balances''" by simp
  have 6: "f_event ?m = Some ''update''" by simp
  have 7: "console ?s = []" by (simp add: run_defs)
  from balance_update_reports_usdt [OF 1 2 1 4 5 6, where P = decimal_platform and post = "[None]" and now = 5000 and ?now2.0 = 5000]
    1 2 4 7
  show ?thesis
    by (simp add: decimal_platform_def decimal_fixture fixed_fixture or_zero_def truthy_def
        nan_add_def shown_def)
qed

text \<open>
  The claim as stated fails in two places. It speaks of every array: on \<open>[null]\<close>, which
  has no USDT entry, \<open>item.currency\<close> throws inside \<open>find\<close> and the handler logs a
  processing error, not "not found"; on \<open>[null, {"currency":"USDT", ...}]\<close>, which has a
  USDT entry, it logs the same error and no balance. And what is reported is the text
  of \<open>toFixed(6)\<close>, not the number parsed: an \<open>available\<close> of \<open>"0.0000004"\<close> is parsed as
  a number other than 0 and reported as \<open>0.000000\<close>.
\<close>

theorem null_element_is_a_processing_error:
  "map_option console
     (run decimal_platform
        [SocketOpen 0 200,
         SocketMessage 0 300 300
           \<lparr>f_id = None, f_method = None, f_result = Balances [None],
            f_error = None, f_channel = Some ''spot.balances'', f_event = Some ''update''\<rparr>,
         SocketMessage 0 400 400
           \<lparr>f_id = None, f_method = None,
            f_result = Balances [None, Some \<lparr>currency = Text ''USDT'', available = Text ''10.5'',
                                               locked = Text ''2.25'', change_type = Missing\<rparr>],
            f_error = None, f_channel = Some ''spot.balances'', f_event = Some ''update''\<rparr>]
        (init ''key'' ''secret''))
   = Some [ProcessingError, ProcessingError]
   \<and> parse_decimal ''0.0000004'' = Some (1 / 2500000)
   \<and> handleBalanceUpdate decimal_platform
         (Balances [Some \<lparr>currency = Text ''USDT'', available = Text ''0.0000004'',
                           locked = Text ''0'', change_type = Missing\<rparr>])
       = UsdtBalance ''0.000000'' ''0.000000'' ''0.000000'' None"
proof -
  have "handleBalanceUpdate decimal_platform
         (Balances [Some \<lparr>currency = Text ''USDT'', available = Text ''0.0000004'',
                           locked = Text ''0'', change_type = Missing\<rparr>])
       = UsdtBalance ''0.000000'' ''0.000000'' ''0.000000'' None"
    by (simp add: handleBalanceUpdate_def decimal_platform_def decimal_fixture fixed_fixture
        or_zero_def truthy_def nan_add_def Let_def)
  moreover have "map_option console
     (run decimal_platform
        [SocketOpen 0 200,
         SocketMessage 0 300 300
           \<lparr>f_id = None, f_method = None, f_result = Balances [None],
            f_error = None, f_channel = Some ''spot.balances'', f_event = Some ''update''\<rparr>,
         SocketMessage 0 400 400
           \<lparr>f_id = None, f_method = None,
            f_result = Balances [None, Some \<lparr>currency = Text ''USDT'', available = Text ''10.5'',
                                               locked = Text ''2.25'', change_type = Missing\<rparr>],
            f_error = None, f_channel = Some ''spot.balances'', f_event = Some ''update''\<rparr>]
        (init ''key'' ''secret''))
   = Some [ProcessingError, ProcessingError]"
    by (simp add: run_defs handleBalanceUpdate_def)
  ultimately show ?thesis by (simp add: decimal_fixture)
qed

section \<open>Nothing is sent unless a socket opens\<close>

text \<open>
  \<open>ws.send\<close> is called by \<open>sendPing\<close>, \<open>sendPong\<close> and \<open>subscribeToBalances\<close>, always on
  \<open>this.ws\<close>. A socket becomes open by its \<open>open\<close> event only, and \<open>connect\<close> makes a
  connecting socket \<open>this.ws\<close>; so once nothing can be sent, nothing is sent until a socket
  opens.
\<close>

lemma ws_send_line:
  assumes "line s' = line s"
  shows "ws_send s' k = ws_send s k"
proof -
  from assms have m: "map readyState (sockets s') = map readyState (sockets s)"
    by (simp add: line_def)
  then have l: "length (sockets s') = length (sockets s)" by (rule map_eq_imp_length_eq)
  have "k < length (sockets s) \<Longrightarrow> readyState (sockets s' ! k) = readyState (sockets s ! k)"
    using m l nth_map [of k "sockets s'" readyState] nth_map [of k "sockets s" readyState] by simp
  with l show ?thesis by (simp add: ws_send_def sock_def)
qed

lemma send_blocked_line: "line s' = line s \<Longrightarrow> send_blocked s' = send_blocked s"
  using ws_send_line [of s' s] by (simp add: send_blocked_def line_def split: option.splits)

lemma line_flags [simp]:
  "line (s\<lparr>isConnected := a\<rparr>) = line s"
  "line (s\<lparr>isAuthenticated := b\<rparr>) = line s"
  "line (s\<lparr>console := c\<rparr>) = line s"
  "line (s\<lparr>pingInterval := p\<rparr>) = line s"
  "line (s\<lparr>completions := cs\<rparr>) = line s"
  "line (s\<lparr>pendingRequests := ps\<rparr>) = line s"
  by (simp_all add: line_def)

lemma line_setTimer [simp]: "line (setTimer t s) = line s"
  by (simp add: line_def setTimer_def)

lemma line_clearTimer [simp]: "line (clearTimer h s) = line s"
  by (simp add: line_def clearTimer_def)

lemma line_settle [simp]: "line (settle k s) = line s"
  by (simp add: line_def settle_def map_update list_update_same_conv)

lemma line_clearConnectionTimeout [simp]: "line (clearConnectionTimeout k s) = line s"
  by (simp add: clearConnectionTimeout_def split: option.splits)

lemma line_rejectAll [simp]: "line (rejectAllPendingRequests err s) = line s"
  by (simp add: line_def rejectAllPendingRequests_def)

lemma line_stopIntervals [simp]: "line (stopIntervals s) = line s"
  by (simp add: line_def stopIntervals_def clearTimer_def Let_def split: option.splits)

lemma line_stopReconnection [simp]: "line (stopReconnection s) = line s"
  by (simp add: line_def stopReconnection_def clearTimer_def Let_def split: option.splits)

lemma line_scheduleReconnect [simp]: "line (scheduleReconnect s) = line s"
  by (simp add: line_def scheduleReconnect_def setTimer_def Let_def)

lemma line_handleDisconnection [simp]: "line (handleDisconnection s) = line s"
  by (simp add: handleDisconnection_def Let_def)

lemma line_pongTimeout [simp]: "line (pongTimeout w s) = line s"
  by (simp add: line_def pongTimeout_def)

lemma line_startBalanceInterval [simp]: "line (startBalanceInterval s) = line s"
  by (simp add: startBalanceInterval_def Let_def line_def setTimer_def)

text \<open>The three methods that call \<open>ws.send\<close>.\<close>

lemma line_sendPing: "send_blocked s \<Longrightarrow> line (sendPing now s) = line s"
  by (auto simp: send_blocked_def sendPing_def line_def setTimer_def Let_def
      split: option.splits sent.splits)

lemma line_sendPong: "send_blocked s \<Longrightarrow> line (sendPong i s) = line s"
  by (auto simp: send_blocked_def sendPong_def line_def split: option.splits sent.splits)

lemma line_subscribeToBalances: "send_blocked s \<Longrightarrow> line (subscribeToBalances P now s) = line s"
  by (auto simp: send_blocked_def subscribeToBalances_def line_def split: option.splits sent.splits)

lemma line_handleMessage: "send_blocked s \<Longrightarrow> line (handleMessage P now now2 m s) = line s"
  by (simp add: handleMessage_def line_sendPong Let_def split: option.splits)

lemma line_fire:
  assumes "send_blocked s" and "\<forall>d. t \<noteq> ReconnectTimer d"
  shows "line (fire P now t s) = line s"
proof (cases t)
  case (SettleDelay k)
  have "line (startPingInterval now s) = line s"
    using assms(1) by (simp add: startPingInterval_def Let_def line_sendPing)
  then show ?thesis by (simp add: SettleDelay fire_def afterSettle_def)
qed (use assms in \<open>simp_all add: fire_def onConnectionTimeout_def Let_def pingTick_def
       balanceTick_def line_sendPing line_subscribeToBalances\<close>)

lemma send_blocked_connect: "send_blocked (connect aw s)"
  by (simp add: send_blocked_def connect_def ws_send_def sock_def setTimer_def Let_def nth_append)

lemma outbox_connect: "outbox (connect aw s) = outbox s"
  by (simp add: connect_def setTimer_def Let_def)

lemma send_blocked_setReadyState:
  "send_blocked s \<Longrightarrow> r \<noteq> OPEN \<Longrightarrow> send_blocked (setReadyState k r s)"
  by (auto simp: send_blocked_def setReadyState_def ws_send_def sock_def nth_list_update
      split: option.splits readyState.splits if_splits)

lemma outbox_setReadyState [simp]: "outbox (setReadyState k r s) = outbox s"
  by (simp add: setReadyState_def)

lemma outbox_line: "line s' = line s \<Longrightarrow> outbox s' = outbox s"
  by (simp add: line_def)

lemma ws_close_blocks: "ws (ws_close k s) = ws s" "ws_send (ws_close k s) k \<noteq> Transmitted"
  by (auto simp: ws_close_def setReadyState_def ws_send_def sock_def
      split: option.splits readyState.splits)

lemma outbox_ws_close [simp]: "outbox (ws_close k s) = outbox s"
  by (simp add: ws_close_def split: option.splits readyState.splits)

lemma send_blocked_close: "send_blocked (close s)" "outbox (close s) = outbox s"
proof -
  let ?s1 = "rejectAllPendingRequests ''Connection closed by user'' (stopReconnection (stopIntervals s))"
  have l: "line ?s1 = line s" by simp
  show "send_blocked (close s)"
  proof (cases "ws ?s1")
    case None
    then show ?thesis by (simp add: close_def Let_def send_blocked_def)
  next
    case (Some k)
    then have "close s = ws_close k ?s1" by (simp add: close_def Let_def)
    then show ?thesis using Some ws_close_blocks [of k ?s1] by (simp add: send_blocked_def)
  qed
  show "outbox (close s) = outbox s"
    using outbox_line [OF l] by (simp add: close_def Let_def split: option.splits)
qed

lemma send_blocked_kept:
  "line s' = line s \<Longrightarrow> send_blocked s \<Longrightarrow> send_blocked s' \<and> outbox s' = outbox s"
  using send_blocked_line [of s' s] outbox_line [of s' s] by simp

lemma send_blocked_dispatch:
  assumes "send_blocked s" and "\<not> is_open e"
  shows "send_blocked (dispatch P e s) \<and> outbox (dispatch P e s) = outbox s"
proof (cases e)
  case (SocketOpen k now)
  with assms(2) show ?thesis by (simp add: is_open_def)
next
  case (SocketMessage k now now2 m)
  have "line (dispatch P e s) = line s" using assms(1) by (simp add: SocketMessage line_handleMessage)
  then show ?thesis using assms(1) by (rule send_blocked_kept)
next
  case (SocketMalformed k)
  then show ?thesis using assms(1) by simp
next
  case (SocketClose k)
  have l: "line (dispatch P e s) = line (setReadyState k CLOSED s)"
    by (simp add: SocketClose onClose_def)
  have "send_blocked (setReadyState k CLOSED s)"
    using assms(1) by (simp add: send_blocked_setReadyState)
  with l have "send_blocked (dispatch P e s) \<and> outbox (dispatch P e s) = outbox (setReadyState k CLOSED s)"
    by (rule send_blocked_kept)
  then show ?thesis by simp
next
  case (SocketError k)
  have l: "line (dispatch P e s) = line (setReadyState k CLOSING s)"
    by (simp add: SocketError onError_def Let_def)
  have "send_blocked (setReadyState k CLOSING s)"
    using assms(1) by (simp add: send_blocked_setReadyState)
  with l have "send_blocked (dispatch P e s) \<and> outbox (dispatch P e s) = outbox (setReadyState k CLOSING s)"
    by (rule send_blocked_kept)
  then show ?thesis by simp
next
  case (TimerFired h now)
  show ?thesis
  proof (cases "map_of (timers s) h")
    case None
    then show ?thesis using assms(1) by (simp add: TimerFired timerFired_def)
  next
    case (Some t)
    let ?s0 = "if repeats t then s else clearTimer h s"
    have l0: "line ?s0 = line s" by simp
    from l0 assms(1) have b0: "send_blocked ?s0 \<and> outbox ?s0 = outbox s" by (rule send_blocked_kept)
    have d: "dispatch P e s = fire P now t ?s0" by (simp add: TimerFired timerFired_def Some)
    show ?thesis
    proof (cases "\<exists>d. t = ReconnectTimer d")
      case True
      then have "dispatch P e s = connect True ?s0" unfolding d by (auto simp: fire_def)
      then show ?thesis using b0 by (simp add: send_blocked_connect outbox_connect)
    next
      case False
      then have "line (fire P now t ?s0) = line ?s0" using b0 by (simp add: line_fire)
      then have "line (dispatch P e s) = line s" unfolding d using l0 by simp
      then show ?thesis using assms(1) by (rule send_blocked_kept)
    qed
  qed
next
  case CallClose
  then show ?thesis by (simp add: send_blocked_close)
qed

lemma send_blocked_run:
  assumes "send_blocked s" and "\<forall>e \<in> set es. \<not> is_open e" and "run P es s = Some s'"
  shows "send_blocked s' \<and> outbox s' = outbox s"
  using assms
proof (induction es arbitrary: s)
  case Nil
  then show ?case by simp
next
  case (Cons e es)
  from Cons.prems(3) have r: "run P es (dispatch P e s) = Some s'"
    by (simp add: run_Cons_Some del: run.simps(2))
  from Cons.prems have ne: "\<not> is_open e" and rest: "\<forall>e \<in> set es. \<not> is_open e" by simp_all
  have 1: "send_blocked (dispatch P e s) \<and> outbox (dispatch P e s) = outbox s"
    using Cons.prems(1) ne by (rule send_blocked_dispatch)
  from Cons.IH [OF _ rest r] 1 show ?case by simp
qed

section \<open>Closing the client\<close>

lemma tidy_reqs: "reqs s' = reqs s \<Longrightarrow> tidy s \<Longrightarrow> tidy s'"
  using pending_ok_reqs [of s' s]
  by (simp add: reqs_def tidy_def logged_ok_def waiters_distinct_def unanswered_def)

lemma tidy_sendPing:
  assumes "tidy s"
  shows "tidy (sendPing now s)"
proof -
  let ?s' = "sendPing now s"
  let ?e = "(requestId s, \<lparr>waiter = nextWaiter s, timestamp = now\<rparr>)"
  have ok: "pending_ok s" and lg: "logged_ok s" and wd: "waiters_distinct s" and ua: "unanswered s"
    using assms by (simp_all add: tidy_def)
  have w: "nextWaiter ?s' = Suc (nextWaiter s)" by (rule sendPing_effect(1))
  have c: "set (completions ?s') \<subseteq> set (completions s) \<union> {nextWaiter s} \<times> range Rejected"
    by (rule sendPing_effect(2))
  have old: "\<And>i p. (i, p) \<in> set (pendingRequests s) \<Longrightarrow> waiter p < nextWaiter s \<and> i < requestId s"
    using ok by (auto simp: pending_ok_def)
  have lg': "\<And>w out. (w, out) \<in> set (completions s) \<Longrightarrow> w < nextWaiter s"
    using lg by (auto simp: logged_ok_def)
  have 1: "pending_ok ?s'" using ok by (rule pending_ok_sendPing)
  have 2: "logged_ok ?s'"
    unfolding logged_ok_def w
  proof (clarify)
    fix a b assume "(a, b) \<in> set (completions ?s')"
    with c have "(a, b) \<in> set (completions s) \<or> a = nextWaiter s" by auto
    then show "a < Suc (nextWaiter s)" using lg' by fastforce
  qed
  show ?thesis
  proof (cases "isConnected s \<and> (\<exists>k. ws s = Some k \<and> ws_send s k \<noteq> Thrown)")
    case True
    then obtain k where k: "isConnected s" "ws s = Some k" "ws_send s k \<noteq> Thrown" by blast
    have same: "completions ?s' = completions s" using k by (rule sendPing_registers)
    have p: "set (pendingRequests ?s') \<subseteq> insert ?e (set (pendingRequests s))"
      using sendPing_effect(3) [of now s] by auto
    have 3: "waiters_distinct ?s'"
      unfolding waiters_distinct_def
    proof (clarify)
      fix i p j q
      assume a: "(i, p) \<in> set (pendingRequests ?s')" "(j, q) \<in> set (pendingRequests ?s')"
        "waiter p = waiter q"
      from a(1) p have ip: "(i, p) = ?e \<or> (i, p) \<in> set (pendingRequests s)" by auto
      from a(2) p have jq: "(j, q) = ?e \<or> (j, q) \<in> set (pendingRequests s)" by auto
      from ip jq a(3) show "i = j"
        using old wd unfolding waiters_distinct_def by fastforce
    qed
    have 4: "unanswered ?s'"
      unfolding unanswered_def same
    proof (clarify)
      fix i p x
      assume a: "(i, p) \<in> set (pendingRequests ?s')" "x \<in> set (completions s)" "waiter p = fst x"
      from a(1) p have ip: "(i, p) = ?e \<or> (i, p) \<in> set (pendingRequests s)" by auto
      then show False
      proof
        assume "(i, p) = ?e"
        then have "fst x = nextWaiter s" using a(3) by simp
        moreover have "fst x < nextWaiter s" using lg' [of "fst x" "snd x"] a(2) by simp
        ultimately show False by simp
      next
        assume "(i, p) \<in> set (pendingRequests s)"
        then show False using ua a(2,3) unfolding unanswered_def by force
      qed
    qed
    from 1 2 3 4 show ?thesis unfolding tidy_def by blast
  next
    case False
    then have p: "pendingRequests ?s' = pendingRequests s \<or>
                  pendingRequests ?s' = AList.delete (requestId s) (pendingRequests s)"
      by (auto simp: sendPing_def Let_def AList.delete_update_same split: option.splits sent.splits)
    have "requestId s \<notin> fst ` set (pendingRequests s)" using old by fastforce
    then have "AList.delete (requestId s) (pendingRequests s) = pendingRequests s"
      by (rule AList.delete_id)
    with p have p': "pendingRequests ?s' = pendingRequests s" by auto
    have 3: "waiters_distinct ?s'" using wd unfolding waiters_distinct_def p' .
    have 4: "unanswered ?s'"
      unfolding unanswered_def p'
    proof (clarify)
      fix i p x
      assume a: "(i, p) \<in> set (pendingRequests s)" "x \<in> set (completions ?s')" "waiter p = fst x"
      from a(2) c have "x \<in> set (completions s) \<or> fst x = nextWaiter s" by auto
      then show False
      proof
        assume "x \<in> set (completions s)"
        then show False using ua a(1,3) unfolding unanswered_def by force
      next
        assume "fst x = nextWaiter s"
        then show False using old [OF a(1)] a(3) by simp
      qed
    qed
    from 1 2 3 4 show ?thesis unfolding tidy_def by blast
  qed
qed

lemma tidy_pongTimeout: "tidy s \<Longrightarrow> tidy (pongTimeout w s)"
  by (simp add: tidy_def pongTimeout_idle)

lemma tidy_rejectAll: "tidy s \<Longrightarrow> tidy (rejectAllPendingRequests err s)"
proof -
  assume t: "tidy s"
  have 1: "pending_ok (rejectAllPendingRequests err s)"
    using t by (simp add: tidy_def pending_ok_rejectAll)
  have "\<And>w out. (w, out) \<in> set (completions s) \<Longrightarrow> w < nextWaiter s"
    using t by (auto simp: tidy_def logged_ok_def)
  moreover have "\<And>i p. (i, p) \<in> set (pendingRequests s) \<Longrightarrow> waiter p < nextWaiter s"
    using t by (auto simp: tidy_def pending_ok_def)
  ultimately have 2: "logged_ok (rejectAllPendingRequests err s)"
    by (auto simp: logged_ok_def rejectAllPendingRequests_def)
  have 3: "waiters_distinct (rejectAllPendingRequests err s)"
    by (simp add: waiters_distinct_def)
  have 4: "unanswered (rejectAllPendingRequests err s)"
    by (simp add: unanswered_def)
  from 1 2 3 4 show ?thesis unfolding tidy_def by blast
qed

lemma tidy_handleMessage:
  assumes "tidy s"
  shows "tidy (handleMessage P now now2 m s)"
proof (cases "has_pending s m")
  case True
  then obtain i p where ip: "f_id m = Some i" "i \<noteq> 0" "map_of (pendingRequests s) i = Some p"
    using has_pending_lookup by blast
  then have mem: "(i, p) \<in> set (pendingRequests s)" by (simp add: map_of_SomeD)
  let ?s' = "handleMessage P now now2 m s"
  have ok: "pending_ok s" and lg: "logged_ok s" and wd: "waiters_distinct s" and ua: "unanswered s"
    using assms by (simp_all add: tidy_def)
  have eq: "?s' = s\<lparr>completions := completions s @ [(waiter p, reply now now2 m p)],
             pendingRequests := AList.delete i (pendingRequests s)\<rparr>"
    using ip by (rule handleMessage_matched)
  have rest: "\<And>j q. (j, q) \<in> set (AList.delete i (pendingRequests s)) \<Longrightarrow>
                (j, q) \<in> set (pendingRequests s) \<and> j \<noteq> i"
    by (auto simp: AList.delete_eq)
  have 1: "pending_ok ?s'" using ok by (rule pending_ok_handleMessage)
  have wp: "waiter p < nextWaiter s" using ok mem by (auto simp: pending_ok_def)
  have 2: "logged_ok ?s'"
    using lg wp by (auto simp: eq logged_ok_def)
  have 3: "waiters_distinct ?s'"
    unfolding waiters_distinct_def
  proof (clarify)
    fix j q j' q'
    assume "(j, q) \<in> set (pendingRequests ?s')" "(j', q') \<in> set (pendingRequests ?s')"
      "waiter q = waiter q'"
    then have "(j, q) \<in> set (pendingRequests s)" "(j', q') \<in> set (pendingRequests s)"
      "waiter q = waiter q'"
      using rest by (simp_all add: eq)
    then show "j = j'" using wd unfolding waiters_distinct_def by fastforce
  qed
  have 4: "unanswered ?s'"
    unfolding unanswered_def
  proof (clarify)
    fix j q x
    assume a: "(j, q) \<in> set (pendingRequests ?s')" "x \<in> set (completions ?s')" "waiter q = fst x"
    from a(1) have jq: "(j, q) \<in> set (pendingRequests s)" "j \<noteq> i" using rest by (simp_all add: eq)
    from a(2) have "x \<in> set (completions s) \<or> fst x = waiter p" by (auto simp: eq)
    then show False
    proof
      assume "x \<in> set (completions s)"
      then show False using ua jq(1) a(3) unfolding unanswered_def by force
    next
      assume "fst x = waiter p"
      then have "waiter q = waiter p" using a(3) by simp
      then have "j = i" using wd jq(1) mem unfolding waiters_distinct_def by fastforce
      then show False using jq(2) by simp
    qed
  qed
  from 1 2 3 4 show ?thesis unfolding tidy_def by blast
next
  case False
  with assms show ?thesis
    using pending_ok_handleMessage [of s P now now2 m]
    by (simp add: tidy_def logged_ok_def waiters_distinct_def unanswered_def)
qed

lemma tidy_dispatch: "tidy s \<Longrightarrow> tidy (dispatch P e s)"
  by (rule reqs_invariant [where Q = tidy, OF tidy_reqs tidy_sendPing
        tidy_pongTimeout tidy_handleMessage tidy_rejectAll])

lemma tidy_init: "tidy (init key secret)"
  using pending_ok_init [of key secret]
  by (simp add: tidy_def logged_ok_def waiters_distinct_def unanswered_def init_def blank_def)

lemma tidy_run:
  assumes "tidy s" and "run P es s = Some s'"
  shows "tidy s'"
  using assms
proof (induction es arbitrary: s)
  case Nil
  then show ?case by simp
next
  case (Cons e es)
  from Cons.prems(2) have r: "run P es (dispatch P e s) = Some s'"
    by (simp add: run_Cons_Some del: run.simps(2))
  from Cons.prems(1) have "tidy (dispatch P e s)" by (rule tidy_dispatch)
  with r show ?case by (rule Cons.IH [rotated])
qed

text \<open>The calls of the callbacks are only ever added to.\<close>

lemma completions_grow_sendPing: "set (completions s) \<subseteq> set (completions (sendPing now s))"
  by (auto simp: sendPing_def Let_def split: option.splits sent.splits)

lemma completions_grow_handleMessage:
  "set (completions s) \<subseteq> set (completions (handleMessage P now now2 m s))"
proof (cases "has_pending s m")
  case True
  then obtain i p where "f_id m = Some i" "i \<noteq> 0" "map_of (pendingRequests s) i = Some p"
    using has_pending_lookup by blast
  then show ?thesis by (auto simp: handleMessage_matched)
next
  case False
  then show ?thesis by simp
qed

lemma completions_grow_dispatch:
  fixes s :: "'n client"
  assumes "A \<subseteq> set (completions s)"
  shows "A \<subseteq> set (completions (dispatch P e s))"
proof -
  let ?Q = "\<lambda>s :: 'n client. A \<subseteq> set (completions s)"
  have "?Q (dispatch P e s)"
  proof (rule reqs_invariant [where Q = ?Q])
    show "\<And>s s' :: 'n client. reqs s' = reqs s \<Longrightarrow> ?Q s \<Longrightarrow> ?Q s'" by (simp add: reqs_def)
    show "\<And>now s. ?Q s \<Longrightarrow> ?Q (sendPing now s)" using completions_grow_sendPing by blast
    show "\<And>w s. ?Q s \<Longrightarrow> ?Q (pongTimeout w s)" by (auto simp: pongTimeout_def)
    show "\<And>now now2 m s. ?Q s \<Longrightarrow> ?Q (handleMessage P now now2 m s)"
      using completions_grow_handleMessage by blast
    show "\<And>err s. ?Q s \<Longrightarrow> ?Q (rejectAllPendingRequests err s)"
      by (auto simp: rejectAllPendingRequests_def)
    show "?Q s" by (rule assms)
  qed
  then show ?thesis .
qed

lemma completions_grow_run:
  assumes "A \<subseteq> set (completions s)" and "run P es s = Some s'"
  shows "A \<subseteq> set (completions s')"
  using assms
proof (induction es arbitrary: s)
  case Nil
  then show ?case by simp
next
  case (Cons e es)
  from Cons.prems(2) have r: "run P es (dispatch P e s) = Some s'"
    by (simp add: run_Cons_Some del: run.simps(2))
  from Cons.prems(1) have "A \<subseteq> set (completions (dispatch P e s))"
    by (rule completions_grow_dispatch)
  with r show ?case by (rule Cons.IH [rotated])
qed

lemma close_requests:
  "pendingRequests (close s) = []"
  "nextWaiter (close s) = nextWaiter s"
  "completions (close s) =
     completions s @ map (\<lambda>(i, p). (waiter p, Rejected ''Connection closed by user'')) (pendingRequests s)"
  using reqs_close [of s] by (simp_all add: reqs_def rejectAllPendingRequests_def)

lemma onClose_empties: "pendingRequests (onClose k s) = []"
  using reqs_onClose [of k s] by (simp add: reqs_def)

text \<open>
  What \<open>close()\<close> achieves. In every state of a run it empties the table and rejects
  every request pending at that moment with \<open>Connection closed by user\<close>; whatever
  happens afterwards, that rejection stays on record and none of those requests is
  ever resolved; no promise created before \<open>close()\<close> was called is resolved after it;
  when the \<open>close\<close> event of the socket that was \<open>this.ws\<close> arrives (which is what
  resolves the promise of \<open>close()\<close>, after \<open>handleDisconnection\<close> has run), the table is
  empty; and as long as no socket opens after \<open>close()\<close> was called, the client sends
  nothing.
\<close>

lemma close_rejects_pending_requests:
  assumes "run P es (init key secret) = Some s" and "run P es' (close s) = Some s'"
  shows "pendingRequests (close s) = []
         \<and> (\<forall>(i, p) \<in> set (pendingRequests s).
               (waiter p, Rejected ''Connection closed by user'') \<in> set (completions (close s))
               \<and> (waiter p, Rejected ''Connection closed by user'') \<in> set (completions s')
               \<and> (\<forall>r. (waiter p, Resolved r) \<notin> set (completions s')))
         \<and> (\<forall>(w, out) \<in> set (completions s').
               w < nextWaiter s \<longrightarrow> (\<exists>r. out = Resolved r) \<longrightarrow> (w, out) \<in> set (completions s))
         \<and> (\<forall>k s''. ws s = Some k \<longrightarrow> step P (SocketClose k) s' = Some s'' \<longrightarrow>
               pendingRequests s'' = [])
         \<and> ((\<forall>e \<in> set es'. \<not> is_open e) \<longrightarrow> outbox s' = outbox s)"
proof -
  have t: "tidy s" using tidy_init assms(1) by (rule tidy_run)
  have sealed0: "sealed (nextWaiter s) (set (completions s)) (close s)"
    by (auto simp: sealed_def close_requests)
  have sealed': "sealed (nextWaiter s) (set (completions s)) s'"
    using sealed0 assms(2) by (rule sealed_run)
  have 3: "\<forall>(w, out) \<in> set (completions s').
               w < nextWaiter s \<longrightarrow> (\<exists>r. out = Resolved r) \<longrightarrow> (w, out) \<in> set (completions s)"
    using sealed' by (simp add: sealed_def)
  have grow: "set (completions (close s)) \<subseteq> set (completions s')"
    using subset_refl assms(2) by (rule completions_grow_run)
  have 2: "\<forall>(i, p) \<in> set (pendingRequests s).
               (waiter p, Rejected ''Connection closed by user'') \<in> set (completions (close s))
               \<and> (waiter p, Rejected ''Connection closed by user'') \<in> set (completions s')
               \<and> (\<forall>r. (waiter p, Resolved r) \<notin> set (completions s'))"
  proof (clarify)
    fix i p assume mem: "(i, p) \<in> set (pendingRequests s)"
    have a: "(waiter p, Rejected ''Connection closed by user'') \<in> set (completions (close s))"
      using mem by (force simp: close_requests)
    have b: "(waiter p, Rejected ''Connection closed by user'') \<in> set (completions s')"
      using a grow by blast
    have wp: "waiter p < nextWaiter s" using t mem by (auto simp: tidy_def pending_ok_def)
    have un: "waiter p \<notin> fst ` set (completions s)"
      using t mem by (auto simp: tidy_def unanswered_def)
    have c: "\<forall>r. (waiter p, Resolved r) \<notin> set (completions s')"
    proof (intro allI notI)
      fix r assume "(waiter p, Resolved r) \<in> set (completions s')"
      with 3 wp have "(waiter p, Resolved r) \<in> set (completions s)" by blast
      then show False using un by force
    qed
    from a b c show "(waiter p, Rejected ''Connection closed by user'') \<in> set (completions (close s))
               \<and> (waiter p, Rejected ''Connection closed by user'') \<in> set (completions s')
               \<and> (\<forall>r. (waiter p, Resolved r) \<notin> set (completions s'))" by blast
  qed
  have 4: "\<forall>k s''. ws s = Some k \<longrightarrow> step P (SocketClose k) s' = Some s'' \<longrightarrow>
               pendingRequests s'' = []"
    by (auto simp: step_def onClose_empties split: if_splits)
  have 5: "(\<forall>e \<in> set es'. \<not> is_open e) \<longrightarrow> outbox s' = outbox s"
  proof
    assume "\<forall>e \<in> set es'. \<not> is_open e"
    with send_blocked_close(1) have "send_blocked s' \<and> outbox s' = outbox (close s)"
      using assms(2) by (rule send_blocked_run)
    then show "outbox s' = outbox s" by (simp add: send_blocked_close(2))
  qed
  from close_requests(1) [of s] 2 3 4 5 show ?thesis by blast
qed


end
